theory Spec2Isabelle
  imports Complex_Main "HOL-Library.Multiset"
begin

section \<open>IoU accumulation over a confusion matrix (util/iou.py)\<close>

text \<open>
  The module defines the class \<open>IoU\<close> twice. The first definition (a subclass of
  \<open>metric.Metric\<close>, lines 7-92) delegates the matrix to a \<open>ConfusionMatrix\<close> object that lives
  in another module; the second definition (lines 94-143) owns the matrix \<open>hist\<close> itself and
  is the one the name \<open>IoU\<close> is bound to once the module has been loaded. Both are embedded:
  the second under the names \<open>IoU_init\<close>, \<open>IoU_reset\<close>, \<open>IoU_add\<close>, \<open>IoU_value\<close>,
  \<open>fast_hist\<close>, \<open>per_class_iu\<close>, \<open>per_class_PA\<close>; the first under \<open>IoU_metric_init\<close>,
  \<open>IoU_metric_add\<close>, \<open>IoU_metric_value\<close>.

  Label values are Python/NumPy integers, modelled as \<open>int\<close>. Matrix entries are counts,
  modelled as \<open>nat\<close> and read as \<open>int\<close> wherever the source subtracts. A floating-point
  quotient of two integers is modelled by the exact rational it rounds, together with the
  three special values a division by zero can give.
\<close>

subsection \<open>Exceptions\<close>

datatype error =
    EmptyReduction        \<comment> \<open>torch: \<open>max(1)\<close> over a class axis of size 0 (IndexError)\<close>
  | MaskLengthMismatch    \<comment> \<open>numpy: boolean mask and indexed array differ in length (IndexError)\<close>
  | NegativeBin           \<comment> \<open>numpy: \<open>bincount\<close> of a negative value (ValueError)\<close>
  | ReshapeMismatch       \<comment> \<open>numpy: \<open>reshape(n, n)\<close> of an array whose size is not \<open>n * n\<close> (ValueError)\<close>
  | NoDimension           \<comment> \<open>torch: \<open>size(0)\<close> of a tensor of rank 0 (IndexError)\<close>
  | AssertBatch           \<comment> \<open>assert: number of targets and predicted outputs do not match\<close>
  | AssertPredictedRank   \<comment> \<open>assert: predictions must be of dimension (N, H, W) or (N, K, H, W)\<close>
  | AssertTargetRank      \<comment> \<open>assert: targets must be of dimension (N, H, W) or (N, K, H, W)\<close>
  | IgnoreOutOfBounds     \<comment> \<open>numpy: an ignored class index outside the matrix (IndexError)\<close>
  | InvalidIgnoreIndex    \<comment> \<open>ValueError: 'ignore\_index' must be an int or iterable\<close>
  | CatMismatch           \<comment> \<open>torch: \<open>cat\<close> of tensors whose trailing shapes differ (RuntimeError)\<close>

subsection \<open>Floating-point results of a division\<close>

datatype npfloat = NaN | PInf | NInf | Fin rat

definition true_divide :: "int \<Rightarrow> int \<Rightarrow> npfloat" where
  \<comment> \<open>numpy's \<open>/\<close> with the warnings for divide and invalid hidden or only printed\<close>
  "true_divide x d =
     (if d = 0 then (if x = 0 then NaN else if 0 < x then PInf else NInf)
      else Fin (of_int x / of_int d))"

fun fin_val :: "npfloat \<Rightarrow> rat" where
  "fin_val (Fin q) = q"
| "fin_val _ = 0"

definition nanmean :: "npfloat list \<Rightarrow> npfloat" where
  \<comment> \<open>\<open>np.nanmean\<close>: the sum of the entries that are not NaN, divided by their number\<close>
  "nanmean xs =
     (let ys = filter (\<lambda>x. x \<noteq> NaN) xs in
      if ys = [] then NaN
      else if PInf \<in> set ys \<and> NInf \<in> set ys then NaN
      else if PInf \<in> set ys then PInf
      else if NInf \<in> set ys then NInf
      else Fin (sum_list (map fin_val ys) / of_nat (length ys)))"

subsection \<open>Tensors\<close>

record tensor =
  shape :: "nat list"
  elems :: "int list"   \<comment> \<open>the elements in row-major order, as \<open>flatten()\<close> lists them\<close>

definition wf_tensor :: "tensor \<Rightarrow> bool" where
  "wf_tensor t = (length (elems t) = prod_list (shape t))"

definition dim :: "tensor \<Rightarrow> nat" where
  "dim t = length (shape t)"

definition flatten :: "tensor \<Rightarrow> int list" where
  "flatten t = elems t"

fun chunks :: "nat \<Rightarrow> nat \<Rightarrow> 'a list \<Rightarrow> 'a list list" where
  \<comment> \<open>the first \<open>n\<close> consecutive blocks of \<open>c\<close> elements\<close>
  "chunks 0 c xs = []"
| "chunks (Suc n) c xs = take c xs # chunks n c (drop c xs)"

definition better :: "int \<times> int \<Rightarrow> int \<times> int \<Rightarrow> int \<times> int" where
  \<comment> \<open>a pair (score, class); a later class wins only with a strictly larger score\<close>
  "better cur new = (if fst cur < fst new then new else cur)"

definition argmax_planes :: "int list list \<Rightarrow> int list" where
  \<comment> \<open>for one example given as its class planes: at every pixel the first class of maximal score\<close>
  "argmax_planes ps =
     (case ps of
        [] \<Rightarrow> []
      | p # rest \<Rightarrow>
          map snd
            (foldl (\<lambda>best (i, pl). map2 better best (zip pl (replicate (length pl) i)))
               (zip p (replicate (length p) 0))
               (zip (map int [1..<Suc (length rest)]) rest)))"

definition to_labels :: "tensor \<Rightarrow> error + tensor" where
  \<comment> \<open>\<open>if t.dim() == 4: _, t = t.max(1)\<close>\<close>
  "to_labels t =
     (case shape t of
        [n, k, h, w] \<Rightarrow>
          if k = 0 then Inl EmptyReduction
          else Inr \<lparr>shape = [n, h, w],
                    elems = concat (map (\<lambda>ex. argmax_planes (chunks k (h * w) ex))
                                      (chunks n (k * h * w) (elems t)))\<rparr>
      | _ \<Rightarrow> Inr t)"

definition cat0 :: "tensor \<Rightarrow> tensor \<Rightarrow> error + tensor" where
  \<comment> \<open>two batches joined along the batch axis, as \<open>torch.cat((a, b), 0)\<close> joins them\<close>
  "cat0 a b =
     (case (shape a, shape b) of
        (n1 # r1, n2 # r2) \<Rightarrow>
          if r1 = r2 then Inr \<lparr>shape = (n1 + n2) # r1, elems = elems a @ elems b\<rparr>
          else Inl CatMismatch
      | _ \<Rightarrow> Inl CatMismatch)"

subsection \<open>The histogram\<close>

definition bincount :: "int list \<Rightarrow> nat \<Rightarrow> error + nat list" where
  \<comment> \<open>\<open>np.bincount(xs, minlength=m)\<close>: one counter per value from 0 to the largest one,
      and no fewer than \<open>m\<close> counters\<close>
  "bincount xs minlength =
     (if \<exists>x \<in> set xs. x < 0 then Inl NegativeBin
      else Inr (map (\<lambda>i. count_list xs (int i))
                  [0..<foldr (\<lambda>x m. max (nat x + 1) m) xs minlength]))"

definition reshape :: "nat \<Rightarrow> nat \<Rightarrow> 'a list \<Rightarrow> error + 'a list list" where
  "reshape r c xs = (if length xs \<noteq> r * c then Inl ReshapeMismatch else Inr (chunks r c xs))"

definition kept :: "int list \<Rightarrow> int list \<Rightarrow> nat \<Rightarrow> (int \<times> int) list" where
  \<comment> \<open>\<open>k = (a >= 0) & (a < n)\<close>, then the pairs \<open>(a[k], b[k])\<close>\<close>
  "kept a b n = filter (\<lambda>(t, p). 0 \<le> t \<and> t < int n) (zip a b)"

definition bins :: "int list \<Rightarrow> int list \<Rightarrow> nat \<Rightarrow> int list" where
  \<comment> \<open>\<open>n * a[k].astype(int) + b[k]\<close>\<close>
  "bins a b n = map (\<lambda>(t, p). int n * t + p) (kept a b n)"

definition fast_hist :: "int list \<Rightarrow> int list \<Rightarrow> nat \<Rightarrow> error + nat list list" where
  "fast_hist a b n =
     (if length b \<noteq> length a then Inl MaskLengthMismatch
      else case bincount (bins a b n) (n ^ 2) of
             Inl e \<Rightarrow> Inl e
           | Inr cs \<Rightarrow> reshape n n cs)"

definition pair_count :: "int list \<Rightarrow> int list \<Rightarrow> int \<Rightarrow> int \<Rightarrow> nat" where
  \<comment> \<open>the number of positions whose true index is \<open>t\<close> and whose predicted index is \<open>p\<close>\<close>
  "pair_count a b t p = length (filter (\<lambda>z. z = (t, p)) (zip a b))"

definition count_matrix :: "int list \<Rightarrow> int list \<Rightarrow> nat \<Rightarrow> nat list list" where
  \<comment> \<open>the matrix that holds at \<open>[t][p]\<close> the number of positions with true index \<open>t\<close> and
      predicted index \<open>p\<close>\<close>
  "count_matrix a b n = map (\<lambda>t. map (\<lambda>p. pair_count a b (int t) (int p)) [0..<n]) [0..<n]"

subsection \<open>The accumulator (second definition of the class)\<close>

record IoU =
  num_classes :: nat
  hist :: "nat list list"

datatype diag =
    Skipping nat nat            \<comment> \<open>'Skipping: len(gt) = .., len(pred) = ..'\<close>
  | DefectHeader                \<comment> \<open>'Defect class IoU as follows:'\<close>
  | PrintedIoU "npfloat list"
  | Summary npfloat npfloat     \<comment> \<open>'===> mIoU: ..; mPA: ..', the two means before scaling and rounding\<close>

datatype pyval = Arr "npfloat list" | Num npfloat

definition zeros :: "nat \<Rightarrow> nat \<Rightarrow> nat list list" where
  "zeros r c = replicate r (replicate c 0)"

definition madd :: "nat list list \<Rightarrow> nat list list \<Rightarrow> nat list list" where
  "madd x y = map2 (map2 (+)) x y"

definition wf_matrix :: "nat \<Rightarrow> nat list list \<Rightarrow> bool" where
  "wf_matrix n m = (length m = n \<and> (\<forall>row \<in> set m. length row = n))"

definition IoU_init :: "nat \<Rightarrow> IoU" where
  "IoU_init n = \<lparr>num_classes = n, hist = zeros n n\<rparr>"

definition IoU_reset :: "IoU \<Rightarrow> IoU" where
  "IoU_reset st = st\<lparr>hist := zeros (num_classes st) (num_classes st)\<rparr>"

definition IoU_add :: "IoU \<Rightarrow> tensor \<Rightarrow> tensor \<Rightarrow> error + (IoU \<times> diag list)" where
  "IoU_add st pred label =
     (case to_labels pred of
        Inl e \<Rightarrow> Inl e
      | Inr pred' \<Rightarrow>
          (case to_labels label of
             Inl e \<Rightarrow> Inl e
           | Inr label' \<Rightarrow>
               if length (flatten label') \<noteq> length (flatten pred')
               then Inr (st, [Skipping (length (flatten label')) (length (flatten pred'))])
               else (case fast_hist (flatten label') (flatten pred') (num_classes st) of
                       Inl e \<Rightarrow> Inl e
                     | Inr h \<Rightarrow> Inr (st\<lparr>hist := madd (hist st) h\<rparr>, []))))"

definition diagonal :: "nat list list \<Rightarrow> int list" where
  \<comment> \<open>\<open>np.diag(hist)\<close>\<close>
  "diagonal m = map (\<lambda>i. int (m ! i ! i)) [0..<length m]"

definition sum1 :: "nat list list \<Rightarrow> int list" where
  \<comment> \<open>\<open>hist.sum(1)\<close>: the sum of every row\<close>
  "sum1 m = map (\<lambda>row. int (sum_list row)) m"

definition sum0 :: "nat list list \<Rightarrow> int list" where
  \<comment> \<open>\<open>hist.sum(0)\<close>: the sum of every column\<close>
  "sum0 m = map (\<lambda>j. int (sum_list (map (\<lambda>row. row ! j) m))) [0..<length m]"

definition iu_vector :: "nat list list \<Rightarrow> npfloat list" where
  \<comment> \<open>\<open>np.diag(hist)[1:] / np.maximum((hist.sum(1) + hist.sum(0) - np.diag(hist))[1:], 1)\<close>\<close>
  "iu_vector h =
     map2 true_divide (drop 1 (diagonal h))
       (map (\<lambda>d. max d 1)
          (drop 1 (map2 (-) (map2 (+) (sum1 h) (sum0 h)) (diagonal h))))"

definition per_class_iu :: "nat list list \<Rightarrow> npfloat list \<times> diag list" where
  "per_class_iu h = (iu_vector h, [DefectHeader, PrintedIoU (iu_vector h)])"

definition per_class_PA :: "nat list list \<Rightarrow> npfloat list" where
  \<comment> \<open>\<open>np.diag(hist) / np.maximum(hist.sum(1), 1)\<close>\<close>
  "per_class_PA h = map2 true_divide (diagonal h) (map (\<lambda>d. max d 1) (sum1 h))"

definition IoU_value :: "IoU \<Rightarrow> pyval list \<times> diag list" where
  \<comment> \<open>the returned tuple, and what the call prints\<close>
  "IoU_value st =
     (let (mIoUs, out) = per_class_iu (hist st);
          mPA = per_class_PA (hist st);
          miou = nanmean mIoUs
      in ([Arr mIoUs, Num miou], out @ [Summary miou (nanmean mPA)]))"

fun IoU_add_all :: "IoU \<Rightarrow> (tensor \<times> tensor) list \<Rightarrow> error + IoU" where
  \<comment> \<open>a caller's loop \<open>for pred, label in batches: metric.add(pred, label)\<close>\<close>
  "IoU_add_all st [] = Inr st"
| "IoU_add_all st ((pred, label) # bs) =
     (case IoU_add st pred label of
        Inl e \<Rightarrow> Inl e
      | Inr (st', _) \<Rightarrow> IoU_add_all st' bs)"

subsection \<open>The metric (first definition of the class)\<close>

datatype ignore_arg =
    IgnoreNone              \<comment> \<open>\<open>None\<close>\<close>
  | IgnoreInt int           \<comment> \<open>an \<open>int\<close>\<close>
  | IgnoreIter "int list"   \<comment> \<open>an iterable\<close>
  | IgnoreOther             \<comment> \<open>anything \<open>tuple()\<close> rejects with a TypeError\<close>

definition IoU_metric_init :: "ignore_arg \<Rightarrow> error + int list option" where
  \<comment> \<open>the value of \<open>self.ignore_index\<close>\<close>
  "IoU_metric_init ig =
     (case ig of
        IgnoreNone \<Rightarrow> Inr None
      | IgnoreInt i \<Rightarrow> Inr (Some [i])
      | IgnoreIter xs \<Rightarrow> Inr (Some xs)
      | IgnoreOther \<Rightarrow> Inl InvalidIgnoreIndex)"

definition size0 :: "tensor \<Rightarrow> error + nat" where
  \<comment> \<open>\<open>t.size(0)\<close>\<close>
  "size0 t = (case shape t of [] \<Rightarrow> Inl NoDimension | n # _ \<Rightarrow> Inr n)"

definition IoU_metric_add ::
  "('cm \<Rightarrow> int list \<Rightarrow> int list \<Rightarrow> error + 'cm) \<Rightarrow> 'cm \<Rightarrow> tensor \<Rightarrow> tensor \<Rightarrow> error + 'cm" where
  \<comment> \<open>\<open>conf_add\<close> stands for \<open>ConfusionMatrix.add\<close>, which is defined in another module\<close>
  "IoU_metric_add conf_add cm predicted target =
     (case size0 predicted of
        Inl e \<Rightarrow> Inl e
      | Inr np \<Rightarrow>
     (case size0 target of
        Inl e \<Rightarrow> Inl e
      | Inr nt \<Rightarrow>
          if np \<noteq> nt then Inl AssertBatch
          else if \<not> (dim predicted = 3 \<or> dim predicted = 4) then Inl AssertPredictedRank
          else if \<not> (dim target = 3 \<or> dim target = 4) then Inl AssertTargetRank
          else (case to_labels predicted of
                  Inl e \<Rightarrow> Inl e
                | Inr predicted' \<Rightarrow>
                    (case to_labels target of
                       Inl e \<Rightarrow> Inl e
                     | Inr target' \<Rightarrow> conf_add cm (flatten predicted') (flatten target')))))"

definition np_index :: "nat \<Rightarrow> int \<Rightarrow> error + nat" where
  \<comment> \<open>an index into an axis of length \<open>n\<close>; a negative one counts from the end\<close>
  "np_index n i =
     (if 0 \<le> i \<and> i < int n then Inr (nat i)
      else if - int n \<le> i \<and> i < 0 then Inr (nat (int n + i))
      else Inl IgnoreOutOfBounds)"

fun np_indices :: "nat \<Rightarrow> int list \<Rightarrow> error + nat list" where
  "np_indices n [] = Inr []"
| "np_indices n (i # is) =
     (case np_index n i of
        Inl e \<Rightarrow> Inl e
      | Inr j \<Rightarrow> (case np_indices n is of Inl e \<Rightarrow> Inl e | Inr js \<Rightarrow> Inr (j # js)))"

definition zero_columns :: "nat list \<Rightarrow> nat list list \<Rightarrow> nat list list" where
  \<comment> \<open>\<open>conf_matrix[:, js] = 0\<close>\<close>
  "zero_columns js m = map (\<lambda>row. map (\<lambda>(j, x). if j \<in> set js then 0 else x) (zip [0..<length row] row)) m"

definition zero_rows :: "nat list \<Rightarrow> nat list list \<Rightarrow> nat list list" where
  \<comment> \<open>\<open>conf_matrix[js, :] = 0\<close>\<close>
  "zero_rows js m = map (\<lambda>(i, row). if i \<in> set js then map (\<lambda>x. 0) row else row) (zip [0..<length m] m)"

definition apply_ignore :: "int list option \<Rightarrow> nat list list \<Rightarrow> error + nat list list" where
  "apply_ignore ig m =
     (case ig of
        None \<Rightarrow> Inr m
      | Some is \<Rightarrow>
          (case np_indices (length m) is of
             Inl e \<Rightarrow> Inl e
           | Inr js \<Rightarrow> Inr (zero_rows js (zero_columns js m))))"

definition true_positive :: "nat list list \<Rightarrow> int list" where
  "true_positive m = diagonal m"

definition false_positive :: "nat list list \<Rightarrow> int list" where
  "false_positive m = map2 (-) (sum0 m) (true_positive m)"

definition false_negative :: "nat list list \<Rightarrow> int list" where
  "false_negative m = map2 (-) (sum1 m) (true_positive m)"

definition iou_vector :: "nat list list \<Rightarrow> npfloat list" where
  \<comment> \<open>\<open>true_positive / (true_positive + false_positive + false_negative)\<close>\<close>
  "iou_vector m =
     map2 true_divide (true_positive m)
       (map2 (+) (map2 (+) (true_positive m) (false_positive m)) (false_negative m))"

definition IoU_metric_value :: "int list option \<Rightarrow> nat list list \<Rightarrow> error + pyval list" where
  \<comment> \<open>\<open>conf\<close> is what \<open>self.conf_metric.value()\<close> returns\<close>
  "IoU_metric_value ig conf =
     (case apply_ignore ig conf of
        Inl e \<Rightarrow> Inl e
      | Inr m \<Rightarrow> Inr [Arr (iou_vector m), Num (nanmean (iou_vector m))])"


subsection \<open>Batches\<close>

definition batch_ok :: "nat \<Rightarrow> tensor \<times> tensor \<Rightarrow> bool" where
  \<comment> \<open>\<open>add\<close> of the batch (predicted, target) to a fresh accumulator raises nothing\<close>
  "batch_ok n b = (case IoU_add (IoU_init n) (fst b) (snd b) of Inl e \<Rightarrow> False | Inr r \<Rightarrow> True)"

definition batch_hist :: "nat \<Rightarrow> tensor \<times> tensor \<Rightarrow> nat list list" where
  \<comment> \<open>the matrix of a fresh accumulator after \<open>add\<close> of the batch\<close>
  "batch_hist n b =
     (case IoU_add (IoU_init n) (fst b) (snd b) of Inl e \<Rightarrow> zeros n n | Inr r \<Rightarrow> hist (fst r))"

section \<open>Properties\<close>

subsection \<open>A fresh accumulator\<close>

lemma diagonal_zeros: "diagonal (zeros n n) = replicate n 0"
  by (rule nth_equalityI) (simp_all add: diagonal_def zeros_def)

lemma sum1_zeros: "sum1 (zeros n n) = replicate n 0"
  by (simp add: sum1_def zeros_def)

lemma sum0_zeros: "sum0 (zeros n n) = replicate n 0"
  by (rule nth_equalityI) (simp_all add: sum0_def zeros_def sum_list_replicate)

lemma map2_replicate: "map2 f (replicate n x) (replicate n y) = replicate n (f x y)"
  by (induction n) simp_all

lemma iu_vector_zeros: "iu_vector (zeros n n) = replicate (n - 1) (Fin 0)"
  by (simp add: iu_vector_def diagonal_zeros sum1_zeros sum0_zeros map2_replicate
      true_divide_def)

lemma nanmean_replicate_zero: "nanmean (replicate k (Fin 0)) = (if k = 0 then NaN else Fin 0)"
  by (simp add: nanmean_def Let_def sum_list_replicate)

text \<open>
  C4 (as the code has it). For every number of classes \<open>n\<close>, a freshly constructed or freshly
  reset accumulator holds the all-zero \<open>n \<times> n\<close> matrix. Its \<open>value()\<close> returns an IoU vector
  with one entry for each of the classes \<open>1, \<dots>, n - 1\<close>, every entry being 0 (the denominator
  is floored at 1), and the mean 0; the mean is NaN only when the vector is empty, that is
  when \<open>n \<le> 1\<close>.
\<close>

theorem C4_fresh:
  "hist (IoU_init n) = replicate n (replicate n 0)
   \<and> hist (IoU_reset st) = replicate (num_classes st) (replicate (num_classes st) 0)
   \<and> fst (IoU_value (IoU_init n))
       = [Arr (replicate (n - 1) (Fin 0)), Num (if n \<le> 1 then NaN else Fin 0)]
   \<and> fst (IoU_value (IoU_reset st))
       = [Arr (replicate (num_classes st - 1) (Fin 0)),
          Num (if num_classes st \<le> 1 then NaN else Fin 0)]"
  by (auto simp add: IoU_init_def IoU_reset_def IoU_value_def per_class_iu_def Let_def
      iu_vector_zeros nanmean_replicate_zero zeros_def[symmetric])

text \<open>
  C4, as stated, fails for two classes: \<open>value()\<close> on the fresh accumulator returns the
  vector \<open>[0]\<close> and the mean 0, not NaN.
\<close>

theorem C4_counterexample:
  "fst (IoU_value (IoU_init 2)) = [Arr [Fin 0], Num (Fin 0)] \<and> Fin 0 \<noteq> NaN"
  by code_simp

subsection \<open>The worked example\<close>

text \<open>
  C3, as stated, fails: with two classes, adding the predicted grid \<open>[[0,1],[1,0]]\<close> against
  the target grid \<open>[[0,1],[1,1]]\<close> gives the matrix \<open>[[1,0],[1,2]]\<close>, not \<open>[[1,0],[0,3]]\<close>.
\<close>

theorem C3_counterexample:
  "IoU_add (IoU_init 2) \<lparr>shape = [2, 2], elems = [0, 1, 1, 0]\<rparr>
                        \<lparr>shape = [2, 2], elems = [0, 1, 1, 1]\<rparr>
     = Inr (\<lparr>num_classes = 2, hist = [[1, 0], [1, 2]]\<rparr>, [])
   \<and> [[1, 0], [1, 2]] \<noteq> [[1, 0], [0, 3 :: nat]]"
  by code_simp

text \<open>
  C3 (as the code has it). The example yields the matrix \<open>[[1,0],[1,2]]\<close>, true positives
  \<open>[1,2]\<close>, false positives \<open>[1,0]\<close>, false negatives \<open>[0,1]\<close>; the derivation of the first
  definition gives the IoU vector \<open>[1/2, 2/3]\<close> with mean \<open>7/12\<close>, and \<open>value()\<close> of the
  second definition returns the vector \<open>[2/3]\<close> (class 1 only) with mean \<open>2/3\<close>.
\<close>

theorem C3_example:
  "IoU_add (IoU_init 2) \<lparr>shape = [2, 2], elems = [0, 1, 1, 0]\<rparr>
                        \<lparr>shape = [2, 2], elems = [0, 1, 1, 1]\<rparr>
     = Inr (\<lparr>num_classes = 2, hist = [[1, 0], [1, 2]]\<rparr>, [])
   \<and> true_positive [[1, 0], [1, 2]] = [1, 2]
   \<and> false_positive [[1, 0], [1, 2]] = [1, 0]
   \<and> false_negative [[1, 0], [1, 2]] = [0, 1]
   \<and> IoU_metric_value None [[1, 0], [1, 2]]
       = Inr [Arr [Fin (1 / 2), Fin (2 / 3)], Num (Fin (7 / 12))]
   \<and> fst (IoU_value \<lparr>num_classes = 2, hist = [[1, 0], [1, 2]]\<rparr>)
       = [Arr [Fin (2 / 3)], Num (Fin (2 / 3))]"
  by code_simp

subsection \<open>Derived statistics\<close>

lemma length_diagonal: "length (diagonal m) = length m"
  by (simp add: diagonal_def)

lemma nth_diagonal: "c < length m \<Longrightarrow> diagonal m ! c = int (m ! c ! c)"
  by (simp add: diagonal_def)

lemma length_sum1: "length (sum1 m) = length m"
  by (simp add: sum1_def)

lemma nth_sum1: "c < length m \<Longrightarrow> sum1 m ! c = int (sum_list (m ! c))"
  by (simp add: sum1_def)

lemma length_sum0: "length (sum0 m) = length m"
  by (simp add: sum0_def)

lemma nth_sum0: "c < length m \<Longrightarrow> sum0 m ! c = int (sum_list (map (\<lambda>row. row ! c) m))"
  by (simp add: sum0_def)

lemma diag_le_row:
  assumes "wf_matrix n m" "c < n"
  shows "m ! c ! c \<le> sum_list (m ! c)"
proof -
  have "length (m ! c) = n" using assms by (simp add: wf_matrix_def)
  then show ?thesis using assms(2) by (simp add: elem_le_sum_list)
qed

lemma diag_le_col:
  assumes "wf_matrix n m" "c < n"
  shows "m ! c ! c \<le> sum_list (map (\<lambda>row. row ! c) m)"
proof -
  have "c < length m" using assms by (simp add: wf_matrix_def)
  then have "(map (\<lambda>row. row ! c) m) ! c \<le> sum_list (map (\<lambda>row. row ! c) m)"
    using elem_le_sum_list[of c "map (\<lambda>row. row ! c) m"] by simp
  then show ?thesis using \<open>c < length m\<close> by simp
qed

lemma per_class_PA_nth:
  assumes "c < length m"
  shows "per_class_PA m ! c = Fin (of_nat (m ! c ! c) / of_nat (max (sum_list (m ! c)) 1))"
proof -
  have "per_class_PA m ! c = true_divide (int (m ! c ! c)) (max (int (sum_list (m ! c))) 1)"
    using assms by (simp add: per_class_PA_def length_diagonal length_sum1 nth_diagonal nth_sum1)
  also have "\<dots> = true_divide (int (m ! c ! c)) (int (max (sum_list (m ! c)) 1))"
    by (simp add: max_def)
  also have "\<dots> = Fin (of_nat (m ! c ! c) / of_nat (max (sum_list (m ! c)) 1))"
    unfolding true_divide_def by (simp del: of_nat_max)
  finally show ?thesis .
qed

lemma IoU_value_returns:
  "IoU_value st =
     ([Arr (iu_vector (hist st)), Num (nanmean (iu_vector (hist st)))],
      [DefectHeader, PrintedIoU (iu_vector (hist st)),
       Summary (nanmean (iu_vector (hist st))) (nanmean (per_class_PA (hist st)))])"
  by (simp add: IoU_value_def per_class_iu_def Let_def)

text \<open>
  C9 (as the code has it). In the second definition, for every accumulated matrix and every
  class \<open>c\<close>, the per-class pixel accuracy is \<open>M[c][c] / max(row_sum(M)[c], 1)\<close>, which is 0
  (neither NaN nor an error) when class \<open>c\<close> never appears as ground truth. \<open>value()\<close>
  computes this vector but only prints its mean in the summary line: the tuple it returns
  holds the per-class IoU vector and the mean IoU, nothing else.
\<close>

theorem C9_accuracy:
  assumes "wf_matrix (num_classes st) (hist st)" and "c < num_classes st"
  shows "length (per_class_PA (hist st)) = num_classes st
    \<and> per_class_PA (hist st) ! c
        = Fin (of_nat (hist st ! c ! c) / of_nat (max (sum_list (hist st ! c)) 1))
    \<and> (sum_list (hist st ! c) = 0 \<longrightarrow> per_class_PA (hist st) ! c = Fin 0)
    \<and> fst (IoU_value st) = [Arr (iu_vector (hist st)), Num (nanmean (iu_vector (hist st)))]
    \<and> snd (IoU_value st)
        = [DefectHeader, PrintedIoU (iu_vector (hist st)),
           Summary (nanmean (iu_vector (hist st))) (nanmean (per_class_PA (hist st)))]"
proof -
  have len: "length (hist st) = num_classes st"
    using assms(1) by (simp add: wf_matrix_def)
  have c: "c < length (hist st)" using assms(2) len by simp
  have 1: "length (per_class_PA (hist st)) = num_classes st"
    by (simp add: per_class_PA_def length_diagonal length_sum1 len)
  have 2: "per_class_PA (hist st) ! c
        = Fin (of_nat (hist st ! c ! c) / of_nat (max (sum_list (hist st ! c)) 1))"
    by (rule per_class_PA_nth[OF c])
  have 3: "per_class_PA (hist st) ! c = Fin 0" if z: "sum_list (hist st ! c) = 0"
  proof -
    have "hist st ! c ! c = 0" using diag_le_row[OF assms] z by linarith
    then show ?thesis using 2 by simp
  qed
  show ?thesis using 1 2 3 by (simp add: IoU_value_returns)
qed

theorem C9_accuracy_witness:
  "per_class_PA [[0, 0], [1, 2]] ! 0 = Fin 0
   \<and> per_class_PA [[0, 0], [1, 2]] ! 1 = Fin (2 / 3)
   \<and> fst (IoU_value \<lparr>num_classes = 2, hist = [[0, 0], [1, 2]]\<rparr>)
        = [Arr [Fin (2 / 3)], Num (Fin (2 / 3))]"
proof -
  have w: "wf_matrix (num_classes \<lparr>num_classes = 2, hist = [[0, 0], [1, 2]]\<rparr>)
             (hist \<lparr>num_classes = 2, hist = [[0, 0], [1, 2]]\<rparr>)"
    by (simp add: wf_matrix_def)
  have i: "iu_vector [[0, 0], [1, 2]] = [Fin (2 / 3)]" by code_simp
  have m: "nanmean [Fin (2 / 3)] = Fin (2 / 3)" by code_simp
  show ?thesis
    using C9_accuracy[OF w, of 0] C9_accuracy[OF w, of 1] i m
    by simp
qed

text \<open>
  C9, as stated, fails: the accuracy vector is not among the values \<open>value()\<close> returns.
\<close>

theorem C9_counterexample:
  "Arr (per_class_PA [[1, 0], [1, 2]])
     \<notin> set (fst (IoU_value \<lparr>num_classes = 2, hist = [[1, 0], [1, 2]]\<rparr>))"
  by code_simp

lemma length_iou_vector: "length (iou_vector m) = length m"
  by (simp add: iou_vector_def true_positive_def false_positive_def false_negative_def
      length_diagonal length_sum0 length_sum1)

lemma nth_iou_vector:
  assumes "c < length m"
  shows "iou_vector m ! c =
    true_divide (int (m ! c ! c))
      (int (m ! c ! c)
       + (int (sum_list (map (\<lambda>row. row ! c) m)) - int (m ! c ! c))
       + (int (sum_list (m ! c)) - int (m ! c ! c)))"
  using assms
  by (simp add: iou_vector_def true_positive_def false_positive_def false_negative_def
      length_diagonal length_sum0 length_sum1 nth_diagonal nth_sum0 nth_sum1)

lemma nth_iou_vector_cases:
  assumes "wf_matrix n m" "c < n"
  shows "iou_vector m ! c = NaN \<or> (\<exists>q. iou_vector m ! c = Fin q)"
proof -
  have c: "c < length m" using assms by (simp add: wf_matrix_def)
  have "m ! c ! c \<le> sum_list (m ! c)" by (rule diag_le_row[OF assms])
  moreover have "m ! c ! c \<le> sum_list (map (\<lambda>row. row ! c) m)" by (rule diag_le_col[OF assms])
  ultimately show ?thesis
    unfolding nth_iou_vector[OF c] true_divide_def by auto
qed

lemma nth_iou_vector_zero_den:
  assumes "wf_matrix n m" "c < n"
    and "int (sum_list (map (\<lambda>row. row ! c) m)) + int (sum_list (m ! c)) - int (m ! c ! c) = 0"
  shows "iou_vector m ! c = NaN"
proof -
  have c: "c < length m" using assms by (simp add: wf_matrix_def)
  have "m ! c ! c \<le> sum_list (m ! c)" by (rule diag_le_row[OF assms(1,2)])
  moreover have "m ! c ! c \<le> sum_list (map (\<lambda>row. row ! c) m)"
    by (rule diag_le_col[OF assms(1,2)])
  ultimately have "m ! c ! c = 0" using assms(3) by linarith
  then show ?thesis
    unfolding nth_iou_vector[OF c] true_divide_def using assms(3) by simp
qed

lemma iou_vector_no_inf:
  assumes "wf_matrix n m"
  shows "PInf \<notin> set (iou_vector m) \<and> NInf \<notin> set (iou_vector m)"
proof -
  have len: "length (iou_vector m) = n"
    using assms by (simp add: length_iou_vector wf_matrix_def)
  have "x \<noteq> PInf \<and> x \<noteq> NInf" if "x \<in> set (iou_vector m)" for x
  proof -
    from that obtain c where "c < n" "x = iou_vector m ! c"
      using len by (metis in_set_conv_nth)
    then show ?thesis using nth_iou_vector_cases[OF assms, of c] by auto
  qed
  then show ?thesis by blast
qed

lemma nanmean_no_inf:
  assumes "PInf \<notin> set xs" "NInf \<notin> set xs"
  shows "nanmean xs =
    (if filter (\<lambda>x. x \<noteq> NaN) xs = [] then NaN
     else Fin (sum_list (map fin_val (filter (\<lambda>x. x \<noteq> NaN) xs))
               / of_nat (length (filter (\<lambda>x. x \<noteq> NaN) xs))))"
  using assms by (simp add: nanmean_def Let_def)

lemma length_iu_vector: "length (iu_vector m) = length m - 1"
  by (simp add: iu_vector_def length_diagonal length_sum0 length_sum1)

lemma nth_drop_one: "0 < c \<Longrightarrow> c < length xs \<Longrightarrow> drop 1 xs ! (c - 1) = xs ! c"
  by (cases c) simp_all

lemma nth_iu_vector:
  assumes "c < length m" "0 < c"
  shows "iu_vector m ! (c - 1) =
    Fin (of_nat (m ! c ! c)
         / of_int (max (int (sum_list (m ! c)) + int (sum_list (map (\<lambda>row. row ! c) m))
                         - int (m ! c ! c)) 1))"
proof -
  have "iu_vector m ! (c - 1) =
    true_divide (int (m ! c ! c))
      (max (int (sum_list (m ! c)) + int (sum_list (map (\<lambda>row. row ! c) m))
                         - int (m ! c ! c)) 1)"
  proof -
    let ?den = "map2 (-) (map2 (+) (sum1 m) (sum0 m)) (diagonal m)"
    have l: "length ?den = length m"
      by (simp add: length_diagonal length_sum0 length_sum1)
    have d: "drop 1 ?den ! (c - 1) = ?den ! c"
      using assms l by (intro nth_drop_one) simp_all
    have e: "?den ! c = int (sum_list (m ! c)) + int (sum_list (map (\<lambda>row. row ! c) m))
                         - int (m ! c ! c)"
      using assms by (simp add: length_diagonal length_sum0 length_sum1 nth_diagonal
        nth_sum0 nth_sum1)
    have t: "drop 1 (diagonal m) ! (c - 1) = int (m ! c ! c)"
      using assms nth_drop_one[of c "diagonal m"] by (simp add: length_diagonal nth_diagonal)
    have c1: "c - 1 < length m - 1" using assms by simp
    show ?thesis
      unfolding iu_vector_def using c1 d e t l
      by (simp add: length_diagonal)
  qed
  moreover have "true_divide x (max d 1) = Fin (of_int x / of_int (max d 1))" for x d
  proof -
    have "max d 1 \<noteq> (0::int)" by linarith
    then show ?thesis unfolding true_divide_def by presburger
  qed
  ultimately show ?thesis by simp
qed

lemma iu_vector_no_nan: "NaN \<notin> set (iu_vector m)"
proof
  assume "NaN \<in> set (iu_vector m)"
  then obtain x d where "(x, d) \<in> set (zip (drop 1 (diagonal m))
       (map (\<lambda>d. max d 1)
          (drop 1 (map2 (-) (map2 (+) (sum1 m) (sum0 m)) (diagonal m)))))"
      and nan: "true_divide x d = NaN"
    unfolding iu_vector_def by auto
  then have "d \<in> set (map (\<lambda>d. max d 1)
          (drop 1 (map2 (-) (map2 (+) (sum1 m) (sum0 m)) (diagonal m))))"
    by (meson set_zip_rightD)
  then have "1 \<le> d" by auto
  then show False using nan by (simp add: true_divide_def split: if_splits)
qed

text \<open>
  C2 (as the code has it). In the first definition, with no ignored class, \<open>value()\<close> yields
  for every matrix \<open>M\<close> and every class \<open>c\<close> in \<open>[0, N)\<close> the entry
  \<open>M[c][c] / (M[c][c] + (column_sum(M)[c] - M[c][c]) + (row_sum(M)[c] - M[c][c]))\<close>; a zero
  denominator makes the entry NaN (no error is raised), every entry is NaN or a finite
  quotient, and the returned mean is the mean of the entries that are not NaN. In the
  second definition \<open>value()\<close> yields an entry only for the classes \<open>c\<close> in \<open>[1, N)\<close>, namely
  \<open>M[c][c] / max(row_sum(M)[c] + column_sum(M)[c] - M[c][c], 1)\<close>: a zero denominator is
  floored at 1, so that no entry is NaN and every entry counts in the mean.
\<close>

theorem C2_iou:
  assumes "wf_matrix n m" and "c < n"
  shows "IoU_metric_value None m = Inr [Arr (iou_vector m), Num (nanmean (iou_vector m))]
    \<and> length (iou_vector m) = n
    \<and> iou_vector m ! c =
        true_divide (int (m ! c ! c))
          (int (m ! c ! c)
           + (int (sum_list (map (\<lambda>row. row ! c) m)) - int (m ! c ! c))
           + (int (sum_list (m ! c)) - int (m ! c ! c)))
    \<and> true_divide 0 0 = NaN
    \<and> (int (sum_list (map (\<lambda>row. row ! c) m)) + int (sum_list (m ! c)) - int (m ! c ! c) = 0
         \<longrightarrow> iou_vector m ! c = NaN)
    \<and> (iou_vector m ! c = NaN \<or> (\<exists>q. iou_vector m ! c = Fin q))
    \<and> nanmean (iou_vector m) =
        (if filter (\<lambda>x. x \<noteq> NaN) (iou_vector m) = [] then NaN
         else Fin (sum_list (map fin_val (filter (\<lambda>x. x \<noteq> NaN) (iou_vector m)))
                   / of_nat (length (filter (\<lambda>x. x \<noteq> NaN) (iou_vector m)))))
    \<and> fst (IoU_value \<lparr>num_classes = n, hist = m\<rparr>)
        = [Arr (iu_vector m), Num (nanmean (iu_vector m))]
    \<and> length (iu_vector m) = n - 1
    \<and> (0 < c \<longrightarrow> iu_vector m ! (c - 1) =
          Fin (of_nat (m ! c ! c)
               / of_int (max (int (sum_list (m ! c)) + int (sum_list (map (\<lambda>row. row ! c) m))
                              - int (m ! c ! c)) 1)))
    \<and> NaN \<notin> set (iu_vector m)"
proof -
  have len: "length m = n" using assms(1) by (simp add: wf_matrix_def)
  have c: "c < length m" using assms(2) len by simp
  have 1: "IoU_metric_value None m = Inr [Arr (iou_vector m), Num (nanmean (iou_vector m))]"
    by (simp add: IoU_metric_value_def apply_ignore_def)
  have 2: "length (iou_vector m) = n" by (simp add: length_iou_vector len)
  note 3 = nth_iou_vector[OF c]
  have 4: "true_divide 0 0 = NaN" by (simp add: true_divide_def)
  note 5 = nth_iou_vector_cases[OF assms]
  have 11: "int (sum_list (map (\<lambda>row. row ! c) m)) + int (sum_list (m ! c)) - int (m ! c ! c) = 0
         \<longrightarrow> iou_vector m ! c = NaN"
    using nth_iou_vector_zero_den[OF assms] by blast
  have 6: "nanmean (iou_vector m) =
        (if filter (\<lambda>x. x \<noteq> NaN) (iou_vector m) = [] then NaN
         else Fin (sum_list (map fin_val (filter (\<lambda>x. x \<noteq> NaN) (iou_vector m)))
                   / of_nat (length (filter (\<lambda>x. x \<noteq> NaN) (iou_vector m)))))"
    using iou_vector_no_inf[OF assms(1)] by (intro nanmean_no_inf) simp_all
  have 7: "fst (IoU_value \<lparr>num_classes = n, hist = m\<rparr>)
        = [Arr (iu_vector m), Num (nanmean (iu_vector m))]"
    by (simp add: IoU_value_returns)
  have 8: "length (iu_vector m) = n - 1" by (simp add: length_iu_vector len)
  have 9: "0 < c \<longrightarrow> iu_vector m ! (c - 1) =
          Fin (of_nat (m ! c ! c)
               / of_int (max (int (sum_list (m ! c)) + int (sum_list (map (\<lambda>row. row ! c) m))
                              - int (m ! c ! c)) 1))"
    using nth_iu_vector[OF c] by blast
  note 10 = iu_vector_no_nan[of m]
  show ?thesis using 1 2 3 4 5 6 7 8 9 10 11 by blast
qed

theorem C2_iou_witness:
  "iou_vector [[0, 0, 0], [0, 1, 1], [0, 0, 2]] = [NaN, Fin (1 / 2), Fin (2 / 3)]
   \<and> IoU_metric_value None [[0, 0, 0], [0, 1, 1], [0, 0, 2]]
       = Inr [Arr [NaN, Fin (1 / 2), Fin (2 / 3)], Num (Fin (7 / 12))]
   \<and> iou_vector [[0, 0, 0], [0, 1, 1], [0, 0, 2]] ! 0 = NaN
   \<and> iu_vector [[0, 0, 0], [0, 1, 1], [0, 0, 2]] ! (1 - 1) = Fin (1 / 2)"
proof -
  have w: "wf_matrix 3 [[0, 0, 0], [0, 1, 1], [0, 0, 2]]"
    by (simp add: wf_matrix_def)
  have v: "iou_vector [[0, 0, 0], [0, 1, 1], [0, 0, 2]] = [NaN, Fin (1 / 2), Fin (2 / 3)]"
    by code_simp
  have n: "nanmean [NaN, Fin (1 / 2), Fin (2 / 3)] = Fin (7 / 12)"
    by code_simp
  have "(1::nat) < 3" and "(0::nat) < 3" by simp_all
  from C2_iou[OF w this(1)] C2_iou[OF w this(2)] v n show ?thesis
    by simp
qed

text \<open>
  C2, as stated, fails on the second definition: for the all-zero matrix of two classes
  \<open>value()\<close> returns the single entry 0 (class 1; class 0 has no entry) and the mean 0,
  where the claim asks for NaN entries left out of the mean.
\<close>

theorem C2_counterexample:
  "fst (IoU_value \<lparr>num_classes = 2, hist = [[0, 0], [0, 0]]\<rparr>) = [Arr [Fin 0], Num (Fin 0)]
   \<and> true_divide 0 (max (0 + 0 - 0) 1) = Fin 0"
  by code_simp

subsection \<open>Ignored classes (first definition)\<close>

text \<open>
  C8. With \<open>ignore_index=0\<close> on three classes, \<open>self.ignore_index\<close> is \<open>(0,)\<close> and \<open>value()\<close>
  sets row 0 and column 0 of the confusion matrix to zero before it derives anything: the
  result is that of the matrix with these entries zero, whatever the accumulated counts
  \<open>a, b, c, d, g\<close> of class 0 were. So \<open>iou[0]\<close> is NaN and left out of the mean, and the
  true positives, false positives and false negatives of classes 1 and 2 are made of the
  counts \<open>e, f, h, i\<close> alone.
\<close>

theorem C8_ignore_class_0:
  "IoU_metric_init (IgnoreInt 0) = Inr (Some [0])
   \<and> apply_ignore (Some [0]) [[a, b, c], [d, e, f], [g, h, i]]
       = Inr [[0, 0, 0], [0, e, f], [0, h, i]]
   \<and> IoU_metric_value (Some [0]) [[a, b, c], [d, e, f], [g, h, i]]
       = IoU_metric_value None [[0, 0, 0], [0, e, f], [0, h, i]]
   \<and> true_positive [[0, 0, 0], [0, e, f], [0, h, i]] = [0, int e, int i]
   \<and> false_positive [[0, 0, 0], [0, e, f], [0, h, i]] = [0, int h, int f]
   \<and> false_negative [[0, 0, 0], [0, e, f], [0, h, i]] = [0, int f, int h]
   \<and> IoU_metric_value (Some [0]) [[a, b, c], [d, e, f], [g, h, i]]
       = Inr [Arr [NaN, true_divide (int e) (int e + int h + int f),
                        true_divide (int i) (int i + int f + int h)],
              Num (nanmean [true_divide (int e) (int e + int h + int f),
                            true_divide (int i) (int i + int f + int h)])]"
proof -
  have u: "[0..<3] = [0, 1, 2]" by code_simp
  have 1: "IoU_metric_init (IgnoreInt 0) = Inr (Some [0])"
    by (simp add: IoU_metric_init_def)
  have 2: "apply_ignore (Some [0]) [[a, b, c], [d, e, f], [g, h, i]]
       = Inr [[0, 0, 0], [0, e, f], [0, h, i]]"
    by (simp add: apply_ignore_def np_index_def zero_rows_def zero_columns_def u)
  have 3: "true_positive [[0, 0, 0], [0, e, f], [0, h, i]] = [0, int e, int i]"
    by (simp add: true_positive_def diagonal_def u)
  have 4: "false_positive [[0, 0, 0], [0, e, f], [0, h, i]] = [0, int h, int f]"
    by (simp add: false_positive_def sum0_def 3 u)
  have 5: "false_negative [[0, 0, 0], [0, e, f], [0, h, i]] = [0, int f, int h]"
    by (simp add: false_negative_def sum1_def 3)
  have 6: "iou_vector [[0, 0, 0], [0, e, f], [0, h, i]]
      = [NaN, true_divide (int e) (int e + int h + int f),
              true_divide (int i) (int i + int f + int h)]"
    unfolding iou_vector_def 3 4 5 by (simp add: true_divide_def)
  have 7: "nanmean (NaN # xs) = nanmean xs" for xs
    by (simp add: nanmean_def)
  show ?thesis
    unfolding IoU_metric_value_def 2 using 1 3 4 5
    by (simp add: apply_ignore_def 6 7)
qed

theorem C8_ignore_class_0_witness:
  "IoU_metric_value (Some [0]) [[5, 2, 3], [4, 5, 6], [7, 8, 9]]
     = Inr [Arr [NaN, Fin (5 / 19), Fin (9 / 23)], Num (Fin (143 / 437))]"
proof -
  have t: "true_divide (int 5) (int 5 + int 8 + int 6) = Fin (5 / 19)"
    "true_divide (int 9) (int 9 + int 6 + int 8) = Fin (9 / 23)"
    by (simp_all add: true_divide_def)
  have m: "nanmean [Fin (5 / 19), Fin (9 / 23)] = Fin (143 / 437)"
    by code_simp
  have "IoU_metric_value (Some [0]) [[5, 2, 3], [4, 5, 6], [7, 8, 9]]
       = Inr [Arr [NaN, true_divide (int 5) (int 5 + int 8 + int 6),
                        true_divide (int 9) (int 9 + int 6 + int 8)],
              Num (nanmean [true_divide (int 5) (int 5 + int 8 + int 6),
                            true_divide (int 9) (int 9 + int 6 + int 8)])]"
    using C8_ignore_class_0[of 5 2 3 4 5 6 7 8 9] by blast
  then show ?thesis by (simp only: t m)
qed

subsection \<open>What add checks\<close>

text \<open>
  C6. When both inputs reduce to label maps and the flattened lengths of the two differ,
  \<open>add\<close> prints the 'Skipping' line, raises nothing and leaves the accumulator exactly as it
  was; a caller's loop over further batches goes on from the unchanged state.
\<close>

theorem C6_skip:
  assumes "to_labels pred = Inr pred'" and "to_labels label = Inr label'"
    and "length (flatten label') \<noteq> length (flatten pred')"
  shows "IoU_add st pred label
           = Inr (st, [Skipping (length (flatten label')) (length (flatten pred'))])
    \<and> IoU_add_all st ((pred, label) # bs) = IoU_add_all st bs"
  using assms by (simp add: IoU_add_def)

theorem C6_skip_witness:
  "IoU_add \<lparr>num_classes = 2, hist = [[1, 0], [1, 2]]\<rparr>
       \<lparr>shape = [1, 2, 1, 2], elems = [3, 1, 2, 4]\<rparr> \<lparr>shape = [1, 1, 3], elems = [0, 1, 1]\<rparr>
     = Inr (\<lparr>num_classes = 2, hist = [[1, 0], [1, 2]]\<rparr>, [Skipping 3 2])
   \<and> IoU_add_all \<lparr>num_classes = 2, hist = [[1, 0], [1, 2]]\<rparr>
       [(\<lparr>shape = [1, 2, 1, 2], elems = [3, 1, 2, 4]\<rparr>, \<lparr>shape = [1, 1, 3], elems = [0, 1, 1]\<rparr>),
        (\<lparr>shape = [1, 1, 2], elems = [1, 1]\<rparr>, \<lparr>shape = [1, 1, 2], elems = [0, 1]\<rparr>)]
     = Inr \<lparr>num_classes = 2, hist = [[1, 1], [1, 3]]\<rparr>"
proof -
  have p: "to_labels \<lparr>shape = [1, 2, 1, 2], elems = [3, 1, 2, 4]\<rparr>
             = Inr \<lparr>shape = [1, 1, 2], elems = [0, 1]\<rparr>"
    by code_simp
  have l: "to_labels \<lparr>shape = [1, 1, 3], elems = [0, 1, 1]\<rparr>
             = Inr \<lparr>shape = [1, 1, 3], elems = [0, 1, 1]\<rparr>"
    by code_simp
  have d: "length (flatten \<lparr>shape = [1, 1, 3], elems = [0, 1, 1]\<rparr>)
             \<noteq> length (flatten \<lparr>shape = [1, 1, 2], elems = [0, 1]\<rparr>)"
    by (simp add: flatten_def)
  have r: "IoU_add_all \<lparr>num_classes = 2, hist = [[1, 0], [1, 2]]\<rparr>
       [(\<lparr>shape = [1, 1, 2], elems = [1, 1]\<rparr>, \<lparr>shape = [1, 1, 2], elems = [0, 1]\<rparr>)]
     = Inr \<lparr>num_classes = 2, hist = [[1, 1], [1, 3]]\<rparr>"
    by code_simp
  show ?thesis
    using C6_skip[OF p l d, of "\<lparr>num_classes = 2, hist = [[1, 0], [1, 2]]\<rparr>"
        "[(\<lparr>shape = [1, 1, 2], elems = [1, 1]\<rparr>, \<lparr>shape = [1, 1, 2], elems = [0, 1]\<rparr>)]"] r
    by (simp add: flatten_def)
qed

lemma to_labels_rank: "dim t \<noteq> 4 \<Longrightarrow> to_labels t = Inr t"
  by (auto simp add: to_labels_def dim_def split: list.splits)

lemma IoU_metric_add_checks:
  assumes "size0 predicted \<noteq> size0 target
           \<or> \<not> (dim predicted = 3 \<or> dim predicted = 4)
           \<or> \<not> (dim target = 3 \<or> dim target = 4)"
  shows "IoU_metric_add conf_add cm predicted target
           \<in> {Inl NoDimension, Inl AssertBatch, Inl AssertPredictedRank, Inl AssertTargetRank}"
  using assms
  by (auto simp add: IoU_metric_add_def size0_def dim_def split: list.splits sum.splits)

lemma IoU_add_unchecked:
  assumes "dim pred \<noteq> 4" and "dim label \<noteq> 4"
  shows "IoU_add st pred label =
      (if length (elems label) \<noteq> length (elems pred)
       then Inr (st, [Skipping (length (elems label)) (length (elems pred))])
       else case fast_hist (elems label) (elems pred) (num_classes st) of
              Inl e \<Rightarrow> Inl e
            | Inr h \<Rightarrow> Inr (st\<lparr>hist := madd (hist st) h\<rparr>, []))"
  using assms by (simp add: IoU_add_def to_labels_rank flatten_def)

text \<open>
  C5 (as the code has it). The first definition of \<open>add\<close> raises before any reduction and
  before the confusion matrix is touched when the batch counts differ or either rank is
  outside \<open>{3, 4}\<close> (one of its three assertions, or the index error of \<open>size(0)\<close> on a
  tensor of rank 0). The second definition checks neither: an input whose rank is not 4 is
  flattened as it is, and the call compares only the flattened lengths.
\<close>

theorem C5_shape_checks:
  "(size0 predicted \<noteq> size0 target
      \<or> \<not> (dim predicted = 3 \<or> dim predicted = 4)
      \<or> \<not> (dim target = 3 \<or> dim target = 4)
    \<longrightarrow> IoU_metric_add conf_add cm predicted target
           \<in> {Inl NoDimension, Inl AssertBatch, Inl AssertPredictedRank, Inl AssertTargetRank})
   \<and> (dim pred \<noteq> 4 \<and> dim label \<noteq> 4
    \<longrightarrow> IoU_add st pred label =
      (if length (elems label) \<noteq> length (elems pred)
       then Inr (st, [Skipping (length (elems label)) (length (elems pred))])
       else case fast_hist (elems label) (elems pred) (num_classes st) of
              Inl e \<Rightarrow> Inl e
            | Inr h \<Rightarrow> Inr (st\<lparr>hist := madd (hist st) h\<rparr>, [])))"
  using IoU_metric_add_checks[of predicted target conf_add cm]
    IoU_add_unchecked[of pred label st]
  by blast

theorem C5_shape_checks_witness:
  "IoU_metric_add (\<lambda>cm a b. Inr cm) () \<lparr>shape = [1, 2, 2], elems = [0, 1, 1, 0]\<rparr>
       \<lparr>shape = [2, 1, 2], elems = [0, 1, 1, 1]\<rparr>
     \<in> {Inl NoDimension, Inl AssertBatch, Inl AssertPredictedRank, Inl AssertTargetRank}
   \<and> IoU_metric_add (\<lambda>cm a b. Inr cm) () \<lparr>shape = [1, 2, 2], elems = [0, 1, 1, 0]\<rparr>
       \<lparr>shape = [2, 1, 2], elems = [0, 1, 1, 1]\<rparr> = Inl AssertBatch
   \<and> IoU_add (IoU_init 2) \<lparr>shape = [4], elems = [0, 1, 1, 0]\<rparr>
       \<lparr>shape = [4], elems = [0, 1, 1, 1]\<rparr>
      = Inr (\<lparr>num_classes = 2, hist = [[1, 0], [1, 2]]\<rparr>, [])"
proof -
  let ?p = "\<lparr>shape = [1, 2, 2], elems = [0, 1, 1, 0]\<rparr>"
  let ?t = "\<lparr>shape = [2, 1, 2], elems = [0, 1, 1, 1]\<rparr>"
  let ?q = "\<lparr>shape = [4], elems = [0, 1, 1, 0]\<rparr>"
  let ?u = "\<lparr>shape = [4], elems = [0, 1, 1, 1]\<rparr>"
  have h1: "size0 ?p \<noteq> size0 ?t \<or> \<not> (dim ?p = 3 \<or> dim ?p = 4) \<or> \<not> (dim ?t = 3 \<or> dim ?t = 4)"
    by (simp add: size0_def)
  have h2: "dim ?q \<noteq> 4 \<and> dim ?u \<noteq> 4"
    by (simp add: dim_def)
  have e: "IoU_metric_add (\<lambda>cm a b. Inr cm) () ?p ?t = Inl AssertBatch"
    by (simp add: IoU_metric_add_def size0_def)
  have a: "IoU_metric_add (\<lambda>cm a b. Inr cm) () ?p ?t
     \<in> {Inl NoDimension, Inl AssertBatch, Inl AssertPredictedRank, Inl AssertTargetRank}"
    using C5_shape_checks[of ?p ?t "\<lambda>cm a b. Inr cm" "()" ?q ?u "IoU_init 2"] h1 by blast
  have b: "IoU_add (IoU_init 2) ?q ?u =
      (if length (elems ?u) \<noteq> length (elems ?q)
       then Inr (IoU_init 2, [Skipping (length (elems ?u)) (length (elems ?q))])
       else case fast_hist (elems ?u) (elems ?q) (num_classes (IoU_init 2)) of
              Inl e \<Rightarrow> Inl e
            | Inr h \<Rightarrow> Inr ((IoU_init 2)\<lparr>hist := madd (hist (IoU_init 2)) h\<rparr>, []))"
    using C5_shape_checks[of ?p ?t "\<lambda>cm a b. Inr cm" "()" ?q ?u "IoU_init 2"] h2 by blast
  have c: "IoU_add (IoU_init 2) ?q ?u = Inr (\<lparr>num_classes = 2, hist = [[1, 0], [1, 2]]\<rparr>, [])"
    unfolding b by code_simp
  show ?thesis using a e c by blast
qed

text \<open>
  C5, as stated, fails on the second definition: a pair of inputs whose batch counts are 1
  and 2, and a pair of inputs of rank 1, are both accumulated without any error.
\<close>

theorem C5_counterexample:
  "IoU_add (IoU_init 2) \<lparr>shape = [1, 2, 2], elems = [0, 1, 1, 0]\<rparr>
                        \<lparr>shape = [2, 1, 2], elems = [0, 1, 1, 1]\<rparr>
     = Inr (\<lparr>num_classes = 2, hist = [[1, 0], [1, 2]]\<rparr>, [])
   \<and> size0 \<lparr>shape = [1, 2, 2], elems = [0, 1, 1, 0]\<rparr>
       \<noteq> size0 \<lparr>shape = [2, 1, 2], elems = [0, 1, 1, 1]\<rparr>
   \<and> IoU_add (IoU_init 2) \<lparr>shape = [4], elems = [0, 1, 1, 0]\<rparr>
                          \<lparr>shape = [4], elems = [0, 1, 1, 1]\<rparr>
     = Inr (\<lparr>num_classes = 2, hist = [[1, 0], [1, 2]]\<rparr>, [])
   \<and> dim \<lparr>shape = [4], elems = [0, 1, 1, 0]\<rparr> = 1"
  by code_simp

subsection \<open>The histogram of one call\<close>

lemma length_chunks: "length (chunks n c xs) = n"
  by (induction n arbitrary: xs) simp_all

lemma chunks_row_length:
  "n * c \<le> length xs \<Longrightarrow> row \<in> set (chunks n c xs) \<Longrightarrow> length row = c"
proof (induction n arbitrary: xs)
  case 0
  then show ?case by simp
next
  case (Suc n)
  have "c \<le> length xs" using Suc.prems(1) by simp
  moreover have "n * c \<le> length (drop c xs)" using Suc.prems(1) by simp
  ultimately show ?case using Suc.IH[of "drop c xs"] Suc.prems(2) by auto
qed

lemma nth_chunks:
  "i < n \<Longrightarrow> j < c \<Longrightarrow> n * c \<le> length xs \<Longrightarrow> chunks n c xs ! i ! j = xs ! (i * c + j)"
proof (induction n arbitrary: xs i)
  case 0
  then show ?case by simp
next
  case (Suc n)
  show ?case
  proof (cases i)
    case 0
    then show ?thesis using Suc.prems by simp
  next
    case (Suc k)
    have "n * c \<le> length (drop c xs)" using Suc.prems(3) by simp
    moreover have "k < n" using Suc.prems(1) Suc by simp
    ultimately have "chunks n c (drop c xs) ! k ! j = drop c xs ! (k * c + j)"
      using Suc.IH Suc.prems(2) by blast
    moreover have "c + (k * c + j) \<le> length xs"
    proof -
      have "Suc k * c \<le> n * c" using \<open>k < n\<close> by (metis Suc_leI mult_le_mono1)
      then show ?thesis using Suc.prems(2,3) by simp
    qed
    ultimately show ?thesis using Suc by (simp add: add.assoc)
  qed
qed

lemma wf_matrix_chunks: "length xs = n * n \<Longrightarrow> wf_matrix n (chunks n n xs)"
  using chunks_row_length[of n n xs] by (simp add: wf_matrix_def length_chunks)

lemma chunks_append:
  "length xs = n1 * c \<Longrightarrow> chunks (n1 + n2) c (xs @ ys) = chunks n1 c xs @ chunks n2 c ys"
proof (induction n1 arbitrary: xs)
  case 0
  then show ?case by simp
next
  case (Suc n1)
  have l: "length (drop c xs) = n1 * c" using Suc.prems by simp
  have c: "c \<le> length xs" using Suc.prems by simp
  show ?case using Suc.IH[OF l] c by simp
qed

lemma chunks_map2:
  "chunks n c (map2 f xs ys) = map2 (map2 f) (chunks n c xs) (chunks n c ys)"
  by (induction n arbitrary: xs ys) (simp_all add: take_zip drop_zip take_map drop_map)

lemma foldr_max_ge: "m0 \<le> foldr (\<lambda>x m. max (nat x + 1) m) xs m0"
  by (induction xs) simp_all

lemma foldr_max_eq:
  "(\<forall>x \<in> set xs. 0 \<le> x \<and> x < int m0) \<Longrightarrow> foldr (\<lambda>x m. max (nat x + 1) m) xs m0 = m0"
proof (induction xs)
  case Nil
  then show ?case by simp
next
  case (Cons a xs)
  have "0 \<le> a \<and> a < int m0" using Cons.prems by simp
  then have "nat a + 1 \<le> m0" by linarith
  then show ?case using Cons by (simp add: max_def)
qed

lemma foldr_max_gt:
  "\<exists>x \<in> set xs. int m0 \<le> x \<Longrightarrow> m0 < foldr (\<lambda>x m. max (nat x + 1) m) xs m0"
proof (induction xs)
  case Nil
  then show ?case by simp
next
  case (Cons a xs)
  show ?case
  proof (cases "int m0 \<le> a")
    case True
    then have "m0 < nat a + 1" by linarith
    then show ?thesis by simp
  next
    case False
    then have "m0 < foldr (\<lambda>x m. max (nat x + 1) m) xs m0" using Cons by auto
    then show ?thesis by simp
  qed
qed

lemma bincount_cases:
  "bincount xs m =
     (if \<exists>x \<in> set xs. x < 0 then Inl NegativeBin
      else if \<exists>x \<in> set xs. int m \<le> x
           then Inr (map (\<lambda>i. count_list xs (int i)) [0..<foldr (\<lambda>x m. max (nat x + 1) m) xs m])
           else Inr (map (\<lambda>i. count_list xs (int i)) [0..<m]))"
proof -
  have "foldr (\<lambda>x m. max (nat x + 1) m) xs m = m"
    if "\<not> (\<exists>x \<in> set xs. int m \<le> x)" "\<not> (\<exists>x \<in> set xs. x < 0)"
    using that by (intro foldr_max_eq) auto
  then show ?thesis by (auto simp add: bincount_def)
qed

lemma fast_hist_cases:
  assumes "length b = length a"
  shows "fast_hist a b n =
     (if \<exists>x \<in> set (bins a b n). x < 0 then Inl NegativeBin
      else if \<exists>x \<in> set (bins a b n). int (n * n) \<le> x then Inl ReshapeMismatch
      else Inr (chunks n n (map (\<lambda>i. count_list (bins a b n) (int i)) [0..<n * n])))"
proof -
  have "length (map (\<lambda>i. count_list xs (int i)) [0..<foldr (\<lambda>x m. max (nat x + 1) m) xs (n * n)])
          \<noteq> n * n" if "\<exists>x \<in> set xs. int (n * n) \<le> x" for xs
    using foldr_max_gt[OF that] by simp
  then show ?thesis
    using assms
    by (auto simp add: fast_hist_def bincount_cases[of _ "n * n"] power2_eq_square reshape_def
        simp del: of_nat_mult)
qed

lemma count_list_map: "count_list (map f xs) y = length (filter (\<lambda>x. f x = y) xs)"
  by (induction xs) simp_all

lemma bin_bounds:
  fixes t p :: int
  assumes "0 \<le> t" "t < int n" "0 \<le> p" "p < int n"
  shows "0 \<le> int n * t + p \<and> int n * t + p < int (n * n)"
proof -
  have "int n * t \<le> int n * (int n - 1)"
    using assms by (intro mult_left_mono) simp_all
  then have "int n * t + p < int n * (int n - 1) + int n" using assms by linarith
  also have "\<dots> = int (n * n)" by (simp add: algebra_simps)
  finally show ?thesis using assms by simp
qed

lemma bin_inj:
  fixes t p t' p' :: int
  assumes "0 \<le> p" "p < int n" "0 \<le> p'" "p' < int n"
    and "int n * t + p = int n * t' + p'"
  shows "t = t' \<and> p = p'"
proof -
  have n: "int n \<noteq> 0" using assms(1,2) by linarith
  have "(int n * t + p) div int n = t"
    using n assms(1,2) by (simp add: div_pos_pos_trivial)
  moreover have "(int n * t' + p') div int n = t'"
    using n assms(3,4) by (simp add: div_pos_pos_trivial)
  ultimately have "t = t'" using assms(5) by simp
  then show ?thesis using assms(5) by simp
qed

lemma kept_mem:
  "z \<in> set (kept a b n) \<longleftrightarrow> z \<in> set (zip a b) \<and> 0 \<le> fst z \<and> fst z < int n"
  by (auto simp add: kept_def)

lemma filter_kept_pair:
  "t < n \<Longrightarrow> filter (\<lambda>z. z = (int t, p)) (kept a b n) = filter (\<lambda>z. z = (int t, p)) (zip a b)"
  unfolding kept_def filter_filter by (rule filter_cong) auto

lemma bins_mem:
  "x \<in> set (bins a b n) \<longleftrightarrow> (\<exists>t p. (t, p) \<in> set (kept a b n) \<and> x = int n * t + p)"
  by (auto simp add: bins_def)

lemma bins_in_range:
  assumes "\<forall>(t, p) \<in> set (kept a b n). 0 \<le> p \<and> p < int n"
    and "x \<in> set (bins a b n)"
  shows "0 \<le> x \<and> x < int (n * n)"
proof -
  from assms(2) obtain t p where tp: "(t, p) \<in> set (kept a b n)" and x: "x = int n * t + p"
    by (auto simp add: bins_mem)
  have "0 \<le> t \<and> t < int n" using tp by (simp add: kept_mem)
  moreover have "0 \<le> p \<and> p < int n" using assms(1) tp by auto
  ultimately show ?thesis unfolding x using bin_bounds by blast
qed

lemma count_bins_in_range:
  assumes inr: "\<forall>(t, p) \<in> set (kept a b n). 0 \<le> p \<and> p < int n"
    and t: "t < n" and p: "p < n"
  shows "count_list (bins a b n) (int (t * n + p)) = pair_count a b (int t) (int p)"
proof -
  have "count_list (bins a b n) (int (t * n + p))
      = length (filter (\<lambda>z. (case z of (t', p') \<Rightarrow> int n * t' + p') = int (t * n + p)) (kept a b n))"
    by (simp add: bins_def count_list_map)
  also have "filter (\<lambda>z. (case z of (t', p') \<Rightarrow> int n * t' + p') = int (t * n + p)) (kept a b n)
      = filter (\<lambda>z. z = (int t, int p)) (kept a b n)"
  proof (rule filter_cong[OF refl])
    fix z assume z: "z \<in> set (kept a b n)"
    obtain t' p' where zz: "z = (t', p')" by (cases z)
    have r: "0 \<le> p' \<and> p' < int n" using inr z zz by auto
    have e: "int (t * n + p) = int n * int t + int p" by (simp add: mult.commute)
    show "((case z of (t', p') \<Rightarrow> int n * t' + p') = int (t * n + p)) = (z = (int t, int p))"
      unfolding zz e using bin_inj[of p' n "int p" t' "int t"] r p by auto
  qed
  also have "\<dots> = filter (\<lambda>z. z = (int t, int p)) (zip a b)"
    by (rule filter_kept_pair[OF t])
  finally show ?thesis by (simp add: pair_count_def)
qed

lemma length_count_matrix: "length (count_matrix a b n) = n"
  by (simp add: count_matrix_def)

lemma nth_count_matrix:
  "t < n \<Longrightarrow> p < n \<Longrightarrow> count_matrix a b n ! t ! p = pair_count a b (int t) (int p)"
  by (simp add: count_matrix_def)

lemma wf_count_matrix: "wf_matrix n (count_matrix a b n)"
  by (auto simp add: wf_matrix_def count_matrix_def)

lemma wf_matrix_eqI:
  assumes "wf_matrix n x" "wf_matrix n y"
    and "\<And>i j. i < n \<Longrightarrow> j < n \<Longrightarrow> x ! i ! j = y ! i ! j"
  shows "x = y"
proof (rule nth_equalityI)
  show "length x = length y" using assms(1,2) by (simp add: wf_matrix_def)
next
  fix i assume i: "i < length x"
  then have i': "i < n" using assms(1) by (simp add: wf_matrix_def)
  have lx: "length (x ! i) = n" using assms(1) i by (simp add: wf_matrix_def)
  have ly: "length (y ! i) = n" using assms(2) i' by (simp add: wf_matrix_def)
  show "x ! i = y ! i"
    by (rule nth_equalityI) (use lx ly assms(3) i' in simp_all)
qed

lemma nth_hist_chunks:
  assumes "t < n" "p < n"
  shows "chunks n n (map f [0..<n * n]) ! t ! p = f (t * n + p)"
proof -
  have "t * n + p < n * n"
  proof -
    have "t * n + p < t * n + n" using assms(2) by simp
    also have "\<dots> = Suc t * n" by simp
    also have "\<dots> \<le> n * n" using assms(1) by (metis Suc_leI mult_le_mono1)
    finally show ?thesis .
  qed
  then show ?thesis using assms by (simp add: nth_chunks)
qed

lemma fast_hist_in_range:
  assumes len: "length b = length a"
    and inr: "\<forall>(t, p) \<in> set (kept a b n). 0 \<le> p \<and> p < int n"
  shows "fast_hist a b n = Inr (count_matrix a b n)"
proof -
  let ?cs = "map (\<lambda>i. count_list (bins a b n) (int i)) [0..<n * n]"
  have "fast_hist a b n = Inr (chunks n n ?cs)"
    using bins_in_range[OF inr] by (subst fast_hist_cases[OF len]) fastforce
  moreover have "chunks n n ?cs = count_matrix a b n"
  proof (rule wf_matrix_eqI[of n])
    show "wf_matrix n (chunks n n ?cs)" by (rule wf_matrix_chunks) simp
    show "wf_matrix n (count_matrix a b n)" by (rule wf_count_matrix)
    fix i j assume "i < n" "j < n"
    then show "chunks n n ?cs ! i ! j = count_matrix a b n ! i ! j"
      using count_bins_in_range[OF inr, of i j]
      by (simp only: nth_hist_chunks nth_count_matrix)
  qed
  ultimately show ?thesis by simp
qed

lemma wf_madd: "wf_matrix n x \<Longrightarrow> wf_matrix n y \<Longrightarrow> wf_matrix n (madd x y)"
  by (auto simp add: wf_matrix_def madd_def set_zip)

lemma nth_madd:
  "wf_matrix n x \<Longrightarrow> wf_matrix n y \<Longrightarrow> i < n \<Longrightarrow> j < n
     \<Longrightarrow> madd x y ! i ! j = x ! i ! j + y ! i ! j"
  by (simp add: wf_matrix_def madd_def)

lemma bincount_in_range:
  assumes "\<forall>(t, p) \<in> set (kept a b n). 0 \<le> p \<and> p < int n"
  shows "bincount (bins a b n) (n ^ 2)
           = Inr (map (\<lambda>i. count_list (bins a b n) (int i)) [0..<n * n])"
  using bins_in_range[OF assms]
  by (subst bincount_cases) (fastforce simp add: power2_eq_square simp del: of_nat_mult)

lemma reshape_in_range:
  assumes "\<forall>(t, p) \<in> set (kept a b n). 0 \<le> p \<and> p < int n"
  shows "reshape n n (map (\<lambda>i. count_list (bins a b n) (int i)) [0..<n * n])
           = Inr (count_matrix a b n)"
proof -
  let ?cs = "map (\<lambda>i. count_list (bins a b n) (int i)) [0..<n * n]"
  have "chunks n n ?cs = count_matrix a b n"
  proof (rule wf_matrix_eqI[of n])
    show "wf_matrix n (chunks n n ?cs)" by (rule wf_matrix_chunks) simp
    show "wf_matrix n (count_matrix a b n)" by (rule wf_count_matrix)
    fix i j assume "i < n" "j < n"
    then show "chunks n n ?cs ! i ! j = count_matrix a b n ! i ! j"
      using count_bins_in_range[OF assms, of i j]
      by (simp only: nth_hist_chunks nth_count_matrix)
  qed
  then show ?thesis by (simp add: reshape_def)
qed

lemma IoU_add_in_range:
  assumes "to_labels pred = Inr pred'" and "to_labels label = Inr label'"
    and "length (flatten label') = length (flatten pred')"
    and "\<forall>(t, p) \<in> set (kept (flatten label') (flatten pred') (num_classes st)).
           0 \<le> p \<and> p < int (num_classes st)"
  shows "IoU_add st pred label
     = Inr (st\<lparr>hist := madd (hist st)
                  (count_matrix (flatten label') (flatten pred') (num_classes st))\<rparr>, [])"
  using assms(1-3) fast_hist_in_range[OF assms(3)[symmetric] assms(4)]
  by (simp add: IoU_add_def)

text \<open>
  C1 (as the code has it). For every call \<open>add(predicted, target)\<close> whose flattened inputs
  have equal length and in which every predicted index at a position whose true index lies
  in \<open>[0, N)\<close> lies in \<open>[0, N)\<close> as well, the update counts exactly these positions: every
  entry \<open>matrix[t][p]\<close> grows by the number of positions with true index \<open>t\<close> and predicted
  index \<open>p\<close>, the update is \<open>bincount(N * t + p, minlength = N * N)\<close> reshaped to \<open>N \<times> N\<close> and
  added to the previous matrix, and a position whose true index is out of range changes no
  entry.
\<close>

theorem C1_update:
  assumes "wf_matrix (num_classes st) (hist st)"
    and "to_labels pred = Inr pred'" and "to_labels label = Inr label'"
    and "length (flatten label') = length (flatten pred')"
    and "\<forall>(t, p) \<in> set (kept (flatten label') (flatten pred') (num_classes st)).
           0 \<le> p \<and> p < int (num_classes st)"
  shows "\<exists>st'. IoU_add st pred label = Inr (st', [])
      \<and> num_classes st' = num_classes st
      \<and> wf_matrix (num_classes st) (hist st')
      \<and> (\<forall>t < num_classes st. \<forall>p < num_classes st.
            hist st' ! t ! p
              = hist st ! t ! p + pair_count (flatten label') (flatten pred') (int t) (int p))
      \<and> (\<exists>cs h. bincount (bins (flatten label') (flatten pred') (num_classes st))
                    (num_classes st ^ 2) = Inr cs
               \<and> reshape (num_classes st) (num_classes st) cs = Inr h
               \<and> hist st' = madd (hist st) h)"
proof -
  let ?n = "num_classes st"
  let ?cm = "count_matrix (flatten label') (flatten pred') ?n"
  let ?st = "st\<lparr>hist := madd (hist st) ?cm\<rparr>"
  have 1: "IoU_add st pred label = Inr (?st, [])"
    by (rule IoU_add_in_range[OF assms(2-5)])
  have 2: "wf_matrix ?n (hist ?st)"
    using wf_madd[OF assms(1) wf_count_matrix] by simp
  have 3: "hist ?st ! t ! p
      = hist st ! t ! p + pair_count (flatten label') (flatten pred') (int t) (int p)"
    if "t < ?n" "p < ?n" for t p
    using nth_madd[OF assms(1) wf_count_matrix that] that by (simp add: nth_count_matrix)
  have 4: "bincount (bins (flatten label') (flatten pred') ?n) (?n ^ 2)
      = Inr (map (\<lambda>i. count_list (bins (flatten label') (flatten pred') ?n) (int i)) [0..<?n * ?n])"
    by (rule bincount_in_range[OF assms(5)])
  have 5: "reshape ?n ?n
      (map (\<lambda>i. count_list (bins (flatten label') (flatten pred') ?n) (int i)) [0..<?n * ?n])
      = Inr ?cm"
    by (rule reshape_in_range[OF assms(5)])
  have 6: "hist ?st = madd (hist st) ?cm" by simp
  have 7: "num_classes ?st = ?n" by simp
  show ?thesis using 1 2 3 4 5 6 7 by blast
qed

theorem C1_update_witness:
  "IoU_add \<lparr>num_classes = 2, hist = [[1, 0], [1, 2]]\<rparr>
       \<lparr>shape = [1, 1, 3], elems = [1, 1, 0]\<rparr> \<lparr>shape = [1, 1, 3], elems = [0, 7, 1]\<rparr>
     = Inr (\<lparr>num_classes = 2, hist = [[1, 1], [2, 2]]\<rparr>, [])"
proof -
  let ?st = "\<lparr>num_classes = 2, hist = [[1, 0], [1, 2]]\<rparr>"
  let ?p = "\<lparr>shape = [1, 1, 3], elems = [1, 1, 0]\<rparr>"
  let ?l = "\<lparr>shape = [1, 1, 3], elems = [0, 7, 1]\<rparr>"
  have w: "wf_matrix (num_classes ?st) (hist ?st)" by (simp add: wf_matrix_def)
  have p: "to_labels ?p = Inr ?p" by (simp add: to_labels_def)
  have l: "to_labels ?l = Inr ?l" by (simp add: to_labels_def)
  have e: "length (flatten ?l) = length (flatten ?p)" by (simp add: flatten_def)
  have k: "kept (flatten ?l) (flatten ?p) (num_classes ?st) = [(0, 1), (1, 0)]"
    by code_simp
  have r: "\<forall>(t, p) \<in> set (kept (flatten ?l) (flatten ?p) (num_classes ?st)).
           0 \<le> p \<and> p < int (num_classes ?st)"
    unfolding k by simp
  from C1_update[OF w p l e r] obtain st' where
    a: "IoU_add ?st ?p ?l = Inr (st', [])" by blast
  have "IoU_add ?st ?p ?l = Inr (\<lparr>num_classes = 2, hist = [[1, 1], [2, 2]]\<rparr>, [])"
    by code_simp
  then show ?thesis using a by simp
qed

text \<open>
  C1, as stated, fails without the condition on the predicted indices: with two classes, a
  position with true index 0 and predicted index 2 increments \<open>matrix[1][0]\<close>, and one with
  true index 0 and predicted index \<open>-1\<close> makes the call fail.
\<close>

theorem C1_counterexample:
  "IoU_add (IoU_init 2) \<lparr>shape = [1, 1, 1], elems = [2]\<rparr> \<lparr>shape = [1, 1, 1], elems = [0]\<rparr>
     = Inr (\<lparr>num_classes = 2, hist = [[0, 0], [1, 0]]\<rparr>, [])
   \<and> IoU_add (IoU_init 2) \<lparr>shape = [1, 1, 1], elems = [- 1]\<rparr> \<lparr>shape = [1, 1, 1], elems = [0]\<rparr>
     = Inl NegativeBin"
  by code_simp

lemma length_filter_less:
  assumes "\<And>x. x \<in> set xs \<Longrightarrow> P x \<Longrightarrow> Q x" and "y \<in> set xs" and "Q y" and "\<not> P y"
  shows "length (filter P xs) < length (filter Q xs)"
  using assms
proof (induction xs)
  case Nil
  then show ?case by simp
next
  case (Cons x xs)
  have le: "length (filter P xs) \<le> length (filter Q xs)"
    using Cons.prems(1)
    by (metis (mono_tags, lifting) filter_filter length_filter_le filter_cong list.set_intros(2))
  show ?case
  proof (cases "y = x")
    case True
    then show ?thesis using le Cons.prems(3,4) by simp
  next
    case False
    then have "length (filter P xs) < length (filter Q xs)"
      using Cons by auto
    then show ?thesis using Cons.prems(1)[of x] by auto
  qed
qed

lemma fast_hist_out_of_range:
  assumes len: "length b = length a"
    and mem: "(t0, p0) \<in> set (kept a b n)" and out: "\<not> (0 \<le> p0 \<and> p0 < int n)"
  shows "fast_hist a b n \<noteq> Inr (count_matrix a b n)"
proof
  assume eq: "fast_hist a b n = Inr (count_matrix a b n)"
  let ?cs = "map (\<lambda>i. count_list (bins a b n) (int i)) [0..<n * n]"
  define b0 where "b0 = int n * t0 + p0"
  have t0: "0 \<le> t0 \<and> t0 < int n" using mem by (simp add: kept_mem)
  then have n: "0 < int n" by linarith
  have b0: "b0 \<in> set (bins a b n)" using mem by (auto simp add: bins_mem b0_def)
  have nn: "\<not> (\<exists>x \<in> set (bins a b n). x < 0)"
    using eq by (subst (asm) fast_hist_cases[OF len]) (auto split: if_splits)
  have nb: "\<not> (\<exists>x \<in> set (bins a b n). int (n * n) \<le> x)"
    using eq by (subst (asm) fast_hist_cases[OF len]) (auto split: if_splits)
  have ch: "chunks n n ?cs = count_matrix a b n"
    using eq nn nb by (subst (asm) fast_hist_cases[OF len]) (simp split: if_splits)
  have r: "0 \<le> b0 \<and> b0 < int (n * n)" using nn nb b0 by force
  define t1 where "t1 = nat (b0 div int n)"
  define p1 where "p1 = nat (b0 mod int n)"
  have p1: "p1 < n" using n by (simp add: p1_def nat_less_iff)
  have d: "0 \<le> b0 div int n" using r n by (simp add: pos_imp_zdiv_nonneg_iff)
  have t1: "t1 < n"
  proof -
    have "b0 < int n * int n" using r by simp
    moreover have "b0 div int n * int n + b0 mod int n = b0" by simp
    moreover have "0 \<le> b0 mod int n" using n by simp
    ultimately have "b0 div int n * int n < int n * int n" by linarith
    then have "b0 div int n < int n" using n by (simp only: mult_less_cancel_right_pos)
    then show ?thesis using d by (simp add: t1_def nat_less_iff)
  qed
  have e: "int (t1 * n + p1) = b0"
    using d n by (simp add: t1_def p1_def mult.commute)
  have "chunks n n ?cs ! t1 ! p1 = count_list (bins a b n) (int (t1 * n + p1))"
    using t1 p1 by (simp only: nth_hist_chunks)
  also have "\<dots> = length (filter (\<lambda>z. (case z of (t', p') \<Rightarrow> int n * t' + p') = b0) (kept a b n))"
    unfolding e by (simp add: bins_def count_list_map)
  finally have lhs: "chunks n n ?cs ! t1 ! p1
      = length (filter (\<lambda>z. (case z of (t', p') \<Rightarrow> int n * t' + p') = b0) (kept a b n))" .
  have rhs: "count_matrix a b n ! t1 ! p1
      = length (filter (\<lambda>z. z = (int t1, int p1)) (kept a b n))"
    using t1 p1 by (simp add: nth_count_matrix pair_count_def filter_kept_pair)
  have "length (filter (\<lambda>z. z = (int t1, int p1)) (kept a b n))
      < length (filter (\<lambda>z. (case z of (t', p') \<Rightarrow> int n * t' + p') = b0) (kept a b n))"
  proof (rule length_filter_less[where y = "(t0, p0)"])
    fix x assume "x \<in> set (kept a b n)" "x = (int t1, int p1)"
    then show "(case x of (t', p') \<Rightarrow> int n * t' + p') = b0"
      using e by (simp add: mult.commute)
  next
    show "(t0, p0) \<in> set (kept a b n)" by (rule mem)
    show "(case (t0, p0) of (t', p') \<Rightarrow> int n * t' + p') = b0" by (simp add: b0_def)
    show "(t0, p0) \<noteq> (int t1, int p1)" using out p1 by auto
  qed
  then show False using lhs rhs ch by simp
qed

lemma fast_hist_exact_iff:
  assumes "length b = length a"
  shows "fast_hist a b n = Inr (count_matrix a b n)
     \<longleftrightarrow> (\<forall>(t, p) \<in> set (kept a b n). 0 \<le> p \<and> p < int n)"
  using fast_hist_in_range[OF assms] fast_hist_out_of_range[OF assms]
  by (metis (mono_tags, lifting) case_prodI2 case_prodD)

lemma fast_hist_overflow:
  assumes len: "length b = length a"
    and mem: "(t, p) \<in> set (kept a b n)" and big: "int (n * n) \<le> int n * t + p"
  shows "fast_hist a b n \<in> {Inl NegativeBin, Inl ReshapeMismatch}"
proof -
  have "int n * t + p \<in> set (bins a b n)" using mem by (auto simp add: bins_mem)
  then have "\<exists>x \<in> set (bins a b n). int (n * n) \<le> x" using big by blast
  then show ?thesis by (subst fast_hist_cases[OF len]) simp
qed

text \<open>
  C10. \<open>fast_hist\<close> filters on the true labels only. For inputs of equal length its result is
  the matrix of the per-cell counts exactly when every predicted index at a kept position
  lies in \<open>[0, N)\<close>; a kept position whose bin index \<open>N * t + p\<close> reaches \<open>N * N\<close> makes the call
  fail (the \<open>bincount\<close> result is too long for \<open>reshape\<close>, unless another bin is negative and
  \<open>bincount\<close> fails first). An instance: two classes, true index 1, predicted index 2, bin
  index 4; \<open>fast_hist\<close> and \<open>add\<close> fail and nothing is recorded.
\<close>

theorem C10_unchecked_prediction:
  "(length b = length a \<longrightarrow>
      (fast_hist a b n = Inr (count_matrix a b n)
         \<longleftrightarrow> (\<forall>(t, p) \<in> set (kept a b n). 0 \<le> p \<and> p < int n)))
   \<and> (length b = length a \<and> (t, p) \<in> set (kept a b n) \<and> int (n * n) \<le> int n * t + p
        \<longrightarrow> fast_hist a b n \<in> {Inl NegativeBin, Inl ReshapeMismatch})
   \<and> kept [1] [2] 2 = [(1, 2)]
   \<and> bins [1] [2] 2 = [4]
   \<and> fast_hist [1] [2] 2 = Inl ReshapeMismatch
   \<and> IoU_add (IoU_init 2) \<lparr>shape = [1, 1, 1], elems = [2]\<rparr> \<lparr>shape = [1, 1, 1], elems = [1]\<rparr>
       = Inl ReshapeMismatch"
proof -
  have 1: "length b = length a \<longrightarrow>
      (fast_hist a b n = Inr (count_matrix a b n)
         \<longleftrightarrow> (\<forall>(t, p) \<in> set (kept a b n). 0 \<le> p \<and> p < int n))"
    using fast_hist_exact_iff by blast
  have 2: "length b = length a \<and> (t, p) \<in> set (kept a b n) \<and> int (n * n) \<le> int n * t + p
        \<longrightarrow> fast_hist a b n \<in> {Inl NegativeBin, Inl ReshapeMismatch}"
    using fast_hist_overflow by blast
  have 3: "kept [1] [2] 2 = [(1, 2)]" by code_simp
  have 4: "bins [1] [2] 2 = [4]" by code_simp
  have 5: "fast_hist [1] [2] 2 = Inl ReshapeMismatch" by code_simp
  have 6: "IoU_add (IoU_init 2) \<lparr>shape = [1, 1, 1], elems = [2]\<rparr>
      \<lparr>shape = [1, 1, 1], elems = [1]\<rparr> = Inl ReshapeMismatch" by code_simp
  show ?thesis using 1 2 3 4 5 6 by blast
qed

theorem C10_unchecked_prediction_witness:
  "fast_hist [0, 1] [1, 0] 2 = Inr (count_matrix [0, 1] [1, 0] 2)
   \<and> fast_hist [0] [2] 2 \<noteq> Inr (count_matrix [0] [2] 2)
   \<and> fast_hist [0] [2] 2 = Inr [[0, 0], [1, 0]]
   \<and> fast_hist [5, 1] [0, 3] 2 \<in> {Inl NegativeBin, Inl ReshapeMismatch}"
proof -
  have l: "length [1, 0 :: int] = length [0, 1 :: int]" "length [2 :: int] = length [0 :: int]"
    "length [0, 3 :: int] = length [5, 1 :: int]"
    by simp_all
  have k1: "kept [0, 1] [1, 0] 2 = [(0, 1), (1, 0)]" by code_simp
  have k2: "kept [0] [2] 2 = [(0, 2)]" by code_simp
  have k3: "kept [5, 1] [0, 3] 2 = [(1, 3)]" by code_simp
  have a: "fast_hist [0, 1] [1, 0] 2 = Inr (count_matrix [0, 1] [1, 0] 2)"
    using C10_unchecked_prediction[of "[1, 0]" "[0, 1]" 2] l(1) by (simp add: k1)
  have b: "fast_hist [0] [2] 2 \<noteq> Inr (count_matrix [0] [2] 2)"
    using C10_unchecked_prediction[of "[2]" "[0]" 2] l(2) by (simp add: k2)
  have c: "fast_hist [0] [2] 2 = Inr [[0, 0], [1, 0]]" by code_simp
  have d: "fast_hist [5, 1] [0, 3] 2 \<in> {Inl NegativeBin, Inl ReshapeMismatch}"
    using C10_unchecked_prediction[of "[0, 3]" "[5, 1]" 2 1 3] l(3) by (simp add: k3)
  show ?thesis using a b c d by blast
qed

subsection \<open>Accumulation over several batches\<close>

lemma map2_assoc:
  assumes "\<And>a b c. f (f a b) c = f a (f b c)"
  shows "map2 f (map2 f xs ys) zs = map2 f xs (map2 f ys zs)"
proof (induction xs arbitrary: ys zs)
  case Nil
  then show ?case by simp
next
  case (Cons x xs)
  show ?case
  proof (cases ys)
    case Nil
    then show ?thesis by simp
  next
    case (Cons y ys')
    note y = this
    show ?thesis
    proof (cases zs)
      case Nil
      then show ?thesis by simp
    next
      case (Cons z zs')
      then show ?thesis using y Cons.IH[of ys' zs'] assms by simp
    qed
  qed
qed

lemma madd_assoc: "madd (madd x y) z = madd x (madd y z)"
  unfolding madd_def
  by (rule map2_assoc) (simp add: map2_assoc add.assoc)

lemma kept_append:
  "length b1 = length a1 \<Longrightarrow> kept (a1 @ a2) (b1 @ b2) n = kept a1 b1 n @ kept a2 b2 n"
  by (simp add: kept_def)

lemma bins_append:
  "length b1 = length a1 \<Longrightarrow> bins (a1 @ a2) (b1 @ b2) n = bins a1 b1 n @ bins a2 b2 n"
  by (simp add: bins_def kept_append)

lemma count_list_app: "count_list (xs @ ys) x = count_list xs x + count_list ys x"
  by (induction xs) simp_all

lemma fast_hist_append:
  assumes l1: "length b1 = length a1" and l2: "length b2 = length a2"
    and h1: "fast_hist a1 b1 n = Inr h1" and h2: "fast_hist a2 b2 n = Inr h2"
  shows "fast_hist (a1 @ a2) (b1 @ b2) n = Inr (madd h1 h2)"
proof -
  let ?c1 = "map (\<lambda>i. count_list (bins a1 b1 n) (int i)) [0..<n * n]"
  let ?c2 = "map (\<lambda>i. count_list (bins a2 b2 n) (int i)) [0..<n * n]"
  let ?c = "map (\<lambda>i. count_list (bins (a1 @ a2) (b1 @ b2) n) (int i)) [0..<n * n]"
  have n1: "\<not> (\<exists>x \<in> set (bins a1 b1 n). x < 0)" "\<not> (\<exists>x \<in> set (bins a1 b1 n). int (n * n) \<le> x)"
    using h1 by (subst (asm) fast_hist_cases[OF l1], auto split: if_splits)+
  have n2: "\<not> (\<exists>x \<in> set (bins a2 b2 n). x < 0)" "\<not> (\<exists>x \<in> set (bins a2 b2 n). int (n * n) \<le> x)"
    using h2 by (subst (asm) fast_hist_cases[OF l2], auto split: if_splits)+
  have e1: "h1 = chunks n n ?c1"
    using h1 n1 by (subst (asm) fast_hist_cases[OF l1]) (simp split: if_splits)
  have e2: "h2 = chunks n n ?c2"
    using h2 n2 by (subst (asm) fast_hist_cases[OF l2]) (simp split: if_splits)
  have l: "length (b1 @ b2) = length (a1 @ a2)" using l1 l2 by simp
  have b: "bins (a1 @ a2) (b1 @ b2) n = bins a1 b1 n @ bins a2 b2 n"
    by (rule bins_append[OF l1])
  have n: "\<not> (\<exists>x \<in> set (bins (a1 @ a2) (b1 @ b2) n). x < 0)"
    "\<not> (\<exists>x \<in> set (bins (a1 @ a2) (b1 @ b2) n). int (n * n) \<le> x)"
    unfolding b using n1 n2 by auto
  have "fast_hist (a1 @ a2) (b1 @ b2) n = Inr (chunks n n ?c)"
    using n by (subst fast_hist_cases[OF l]) simp
  moreover have "?c = map2 (+) ?c1 ?c2"
    unfolding b by (simp add: map2_map_map count_list_app)
  ultimately show ?thesis
    unfolding e1 e2 madd_def by (simp only: chunks_map2)
qed

lemma to_labels_cat0:
  assumes wf: "wf_tensor a1" and c: "cat0 a1 a2 = Inr a"
    and t1: "to_labels a1 = Inr a1'" and t2: "to_labels a2 = Inr a2'"
  shows "\<exists>a'. to_labels a = Inr a' \<and> flatten a' = flatten a1' @ flatten a2'"
proof -
  from c obtain n1 r n2 where s1: "shape a1 = n1 # r" and s2: "shape a2 = n2 # r"
    and a: "a = \<lparr>shape = (n1 + n2) # r, elems = elems a1 @ elems a2\<rparr>"
    by (auto simp add: cat0_def split: list.splits if_splits)
  show ?thesis
  proof (cases "\<exists>k h w. r = [k, h, w]")
    case True
    then obtain k h w where r: "r = [k, h, w]" by blast
    have k: "k \<noteq> 0" using t1 s1 r by (auto simp add: to_labels_def split: if_splits)
    have len: "length (elems a1) = n1 * (k * h * w)"
      using wf s1 r by (simp add: wf_tensor_def mult.assoc)
    have "chunks (n1 + n2) (k * h * w) (elems a1 @ elems a2)
        = chunks n1 (k * h * w) (elems a1) @ chunks n2 (k * h * w) (elems a2)"
      by (rule chunks_append[OF len])
    then show ?thesis
      using t1 t2 s1 s2 r k a by (auto simp add: to_labels_def flatten_def)
  next
    case False
    then have "to_labels a1 = Inr a1" "to_labels a2 = Inr a2" "to_labels a = Inr a"
      using s1 s2 a by (auto simp add: to_labels_def split: list.splits)
    then show ?thesis using t1 t2 a by (auto simp add: flatten_def)
  qed
qed

lemma IoU_add_success:
  assumes "IoU_add st pred label = Inr (st', [])"
  shows "\<exists>pred' label' h. to_labels pred = Inr pred' \<and> to_labels label = Inr label'
      \<and> length (flatten label') = length (flatten pred')
      \<and> fast_hist (flatten label') (flatten pred') (num_classes st) = Inr h
      \<and> st' = st\<lparr>hist := madd (hist st) h\<rparr>"
  using assms by (auto simp add: IoU_add_def split: sum.splits if_splits)

lemma IoU_add_concat:
  assumes wfa: "wf_tensor a1" and wfb: "wf_tensor b1"
    and ca: "cat0 a1 a2 = Inr a" and cb: "cat0 b1 b2 = Inr b"
    and s1: "IoU_add st a1 b1 = Inr (s1, [])" and s2: "IoU_add s1 a2 b2 = Inr (s2, [])"
  shows "IoU_add st a b = Inr (s2, [])"
proof -
  from IoU_add_success[OF s1] obtain p1 l1 h1 where
    1: "to_labels a1 = Inr p1" "to_labels b1 = Inr l1"
       "length (flatten l1) = length (flatten p1)"
       "fast_hist (flatten l1) (flatten p1) (num_classes st) = Inr h1"
       "s1 = st\<lparr>hist := madd (hist st) h1\<rparr>"
    by blast
  from IoU_add_success[OF s2] obtain p2 l2 h2 where
    2: "to_labels a2 = Inr p2" "to_labels b2 = Inr l2"
       "length (flatten l2) = length (flatten p2)"
       "fast_hist (flatten l2) (flatten p2) (num_classes s1) = Inr h2"
       "s2 = s1\<lparr>hist := madd (hist s1) h2\<rparr>"
    by blast
  from to_labels_cat0[OF wfa ca 1(1) 2(1)] obtain p where
    p: "to_labels a = Inr p" "flatten p = flatten p1 @ flatten p2" by blast
  from to_labels_cat0[OF wfb cb 1(2) 2(2)] obtain l where
    l: "to_labels b = Inr l" "flatten l = flatten l1 @ flatten l2" by blast
  have n: "num_classes s1 = num_classes st" using 1(5) by simp
  have f: "fast_hist (flatten l) (flatten p) (num_classes st) = Inr (madd h1 h2)"
    unfolding p(2) l(2)
    using fast_hist_append[OF 1(3)[symmetric] 2(3)[symmetric] 1(4)] 2(4) n by simp
  have "s2 = st\<lparr>hist := madd (hist st) (madd h1 h2)\<rparr>"
    using 1(5) 2(5) by (simp add: madd_assoc)
  then show ?thesis
    using p l f 1(3) 2(3) by (simp add: IoU_add_def)
qed

lemma wf_zeros: "wf_matrix n (zeros n n)"
  by (simp add: wf_matrix_def zeros_def)

lemma nth_zeros: "i < n \<Longrightarrow> j < n \<Longrightarrow> zeros n n ! i ! j = 0"
  by (simp add: zeros_def)

lemma madd_zeros_left:
  assumes "wf_matrix n h"
  shows "madd (zeros n n) h = h"
proof (rule wf_matrix_eqI[of n])
  show "wf_matrix n (madd (zeros n n) h)" by (rule wf_madd[OF wf_zeros assms])
  show "wf_matrix n h" by (rule assms)
  fix i j assume "i < n" "j < n"
  then show "madd (zeros n n) h ! i ! j = h ! i ! j"
    using nth_madd[OF wf_zeros assms, of i j] by (simp add: nth_zeros)
qed

lemma madd_zeros_right:
  assumes "wf_matrix n h"
  shows "madd h (zeros n n) = h"
proof (rule wf_matrix_eqI[of n])
  show "wf_matrix n (madd h (zeros n n))" by (rule wf_madd[OF assms wf_zeros])
  show "wf_matrix n h" by (rule assms)
  fix i j assume "i < n" "j < n"
  then show "madd h (zeros n n) ! i ! j = h ! i ! j"
    using nth_madd[OF assms wf_zeros, of i j] by (simp add: nth_zeros)
qed

lemma fast_hist_wf: "fast_hist a b n = Inr h \<Longrightarrow> wf_matrix n h"
  by (auto simp add: fast_hist_def reshape_def wf_matrix_chunks split: if_splits sum.splits)

lemma IoU_add_via_fresh:
  assumes "wf_matrix (num_classes st) (hist st)"
  shows "IoU_add st p l =
     (case IoU_add (IoU_init (num_classes st)) p l of
        Inl e \<Rightarrow> Inl e
      | Inr r \<Rightarrow> Inr (st\<lparr>hist := madd (hist st) (hist (fst r))\<rparr>, snd r))"
  using assms
  by (auto simp add: IoU_add_def IoU_init_def madd_zeros_right madd_zeros_left fast_hist_wf
      split: sum.splits)

lemma wf_batch_hist: "wf_matrix n (batch_hist n b)"
  by (auto simp add: batch_hist_def IoU_add_def IoU_init_def wf_zeros wf_madd fast_hist_wf
      split: sum.splits if_splits)

lemma IoU_add_ok:
  assumes "wf_matrix (num_classes st) (hist st)" and "batch_ok (num_classes st) (p, l)"
  shows "\<exists>out. IoU_add st p l
           = Inr (st\<lparr>hist := madd (hist st) (batch_hist (num_classes st) (p, l))\<rparr>, out)"
  using assms(2) unfolding IoU_add_via_fresh[OF assms(1)]
  by (auto simp add: batch_ok_def batch_hist_def split: sum.splits)

lemma IoU_add_not_ok:
  assumes "wf_matrix (num_classes st) (hist st)" and "\<not> batch_ok (num_classes st) (p, l)"
  shows "\<exists>e. IoU_add st p l = Inl e"
  using assms(2) unfolding IoU_add_via_fresh[OF assms(1)]
  by (auto simp add: batch_ok_def split: sum.splits)

lemma IoU_add_all_ok:
  assumes "wf_matrix (num_classes st) (hist st)"
    and "\<forall>b \<in> set bs. batch_ok (num_classes st) b"
  shows "IoU_add_all st bs
     = Inr (st\<lparr>hist := foldl madd (hist st) (map (batch_hist (num_classes st)) bs)\<rparr>)"
  using assms
proof (induction bs arbitrary: st)
  case Nil
  then show ?case by simp
next
  case (Cons b bs)
  obtain p l where b: "b = (p, l)" by (cases b)
  let ?st = "st\<lparr>hist := madd (hist st) (batch_hist (num_classes st) (p, l))\<rparr>"
  from IoU_add_ok[OF Cons.prems(1), of p l] Cons.prems(2) b
  obtain out where a: "IoU_add st p l = Inr (?st, out)" by auto
  have w: "wf_matrix (num_classes ?st) (hist ?st)"
    using wf_madd[OF Cons.prems(1) wf_batch_hist] by simp
  have o: "\<forall>b \<in> set bs. batch_ok (num_classes ?st) b" using Cons.prems(2) by simp
  show ?case using Cons.IH[OF w o] a b by simp
qed

lemma IoU_add_all_success:
  assumes "wf_matrix (num_classes st) (hist st)" and "IoU_add_all st bs = Inr st'"
  shows "\<forall>b \<in> set bs. batch_ok (num_classes st) b"
  using assms
proof (induction bs arbitrary: st)
  case Nil
  then show ?case by simp
next
  case (Cons b bs)
  obtain p l where b: "b = (p, l)" by (cases b)
  have ok: "batch_ok (num_classes st) (p, l)"
  proof (rule ccontr)
    assume "\<not> batch_ok (num_classes st) (p, l)"
    from IoU_add_not_ok[OF Cons.prems(1) this] show False
      using Cons.prems(2) b by auto
  qed
  let ?st = "st\<lparr>hist := madd (hist st) (batch_hist (num_classes st) (p, l))\<rparr>"
  from IoU_add_ok[OF Cons.prems(1) ok]
  obtain out where a: "IoU_add st p l = Inr (?st, out)" by auto
  have w: "wf_matrix (num_classes ?st) (hist ?st)"
    using wf_madd[OF Cons.prems(1) wf_batch_hist] by simp
  have r: "IoU_add_all ?st bs = Inr st'" using Cons.prems(2) a b by simp
  show ?case using Cons.IH[OF w r] ok b by simp
qed

lemma foldl_madd:
  assumes "wf_matrix n h" and "\<forall>m \<in> set ms. wf_matrix n m"
  shows "wf_matrix n (foldl madd h ms)
    \<and> (\<forall>i < n. \<forall>j < n. foldl madd h ms ! i ! j = h ! i ! j + sum_list (map (\<lambda>m. m ! i ! j) ms))"
  using assms
proof (induction ms arbitrary: h)
  case Nil
  then show ?case by simp
next
  case (Cons m ms)
  have m: "wf_matrix n m" using Cons.prems(2) by simp
  have w: "wf_matrix n (madd h m)" by (rule wf_madd[OF Cons.prems(1) m])
  have r: "\<forall>m \<in> set ms. wf_matrix n m" using Cons.prems(2) by simp
  show ?case using Cons.IH[OF w r] nth_madd[OF Cons.prems(1) m]
    by (simp add: add.assoc)
qed

lemma sum_list_mset_union:
  fixes f :: "'a \<Rightarrow> nat"
  assumes "mset zs = mset xs + mset ys"
  shows "sum_list (map f zs) = sum_list (map f xs) + sum_list (map f ys)"
proof -
  have "sum_list (map f zs) = sum_mset (image_mset f (mset zs))"
    by (metis mset_map sum_mset_sum_list)
  also have "\<dots> = sum_mset (image_mset f (mset xs)) + sum_mset (image_mset f (mset ys))"
    using assms by simp
  also have "\<dots> = sum_list (map f xs) + sum_list (map f ys)"
    by (metis mset_map sum_mset_sum_list)
  finally show ?thesis .
qed

lemma IoU_merge:
  assumes a: "IoU_add_all (IoU_init n) xs = Inr sa"
    and b: "IoU_add_all (IoU_init n) ys = Inr sb"
    and m: "mset zs = mset xs + mset ys"
  shows "IoU_add_all (IoU_init n) zs = Inr \<lparr>num_classes = n, hist = madd (hist sa) (hist sb)\<rparr>"
proof -
  have w: "wf_matrix (num_classes (IoU_init n)) (hist (IoU_init n))"
    by (simp add: IoU_init_def wf_zeros)
  have n: "num_classes (IoU_init n) = n" by (simp add: IoU_init_def)
  have h0: "hist (IoU_init n) = zeros n n" by (simp add: IoU_init_def)
  have okx: "\<forall>b \<in> set xs. batch_ok n b" using IoU_add_all_success[OF w a] n by simp
  have oky: "\<forall>b \<in> set ys. batch_ok n b" using IoU_add_all_success[OF w b] n by simp
  have "set zs = set xs \<union> set ys" using m by (metis set_mset_mset set_mset_union)
  then have okz: "\<forall>b \<in> set zs. batch_ok n b" using okx oky by auto
  let ?F = "\<lambda>bs. foldl madd (zeros n n) (map (batch_hist n) bs)"
  have all: "IoU_add_all (IoU_init n) bs = Inr \<lparr>num_classes = n, hist = ?F bs\<rparr>"
    if "\<forall>b \<in> set bs. batch_ok n b" for bs
    using IoU_add_all_ok[OF w, of bs] that n by (simp add: IoU_init_def)
  have sa: "hist sa = ?F xs" using all[OF okx] a by auto
  have sb: "hist sb = ?F ys" using all[OF oky] b by auto
  have F: "wf_matrix n (?F bs)
    \<and> (\<forall>i < n. \<forall>j < n. ?F bs ! i ! j = sum_list (map (\<lambda>b. batch_hist n b ! i ! j) bs))" for bs
    using foldl_madd[OF wf_zeros, of "map (batch_hist n) bs" n]
    by (simp add: wf_batch_hist nth_zeros comp_def)
  have "?F zs = madd (?F xs) (?F ys)"
  proof (rule wf_matrix_eqI[of n])
    show "wf_matrix n (?F zs)" using F by blast
    show "wf_matrix n (madd (?F xs) (?F ys))" using F wf_madd by blast
    fix i j assume ij: "i < n" "j < n"
    have "?F zs ! i ! j = sum_list (map (\<lambda>b. batch_hist n b ! i ! j) zs)"
      using F ij by blast
    also have "\<dots> = sum_list (map (\<lambda>b. batch_hist n b ! i ! j) xs)
                   + sum_list (map (\<lambda>b. batch_hist n b ! i ! j) ys)"
      by (rule sum_list_mset_union[OF m])
    also have "\<dots> = ?F xs ! i ! j + ?F ys ! i ! j" using F ij by simp
    also have "\<dots> = madd (?F xs) (?F ys) ! i ! j"
      using nth_madd[of n "?F xs" "?F ys" i j] F ij by simp
    finally show "?F zs ! i ! j = madd (?F xs) (?F ys) ! i ! j" .
  qed
  then show ?thesis using all[OF okz] sa sb by simp
qed

text \<open>
  C7. Accumulation is additive: when \<open>add(a1, b1)\<close> and then \<open>add(a2, b2)\<close> both update a
  fresh accumulator (neither is skipped, neither raises), a single \<open>add\<close> of the two batches
  joined along the batch axis leaves a fresh accumulator in the same state. It is mergeable:
  when two fresh accumulators are fed the batches \<open>xs\<close> and \<open>ys\<close> and a third one is fed all
  these batches in any order, the third one raises nothing, its matrix is the entrywise sum
  of the other two, and the IoU derived from the summed matrix is the IoU derived from the
  third accumulator, by either definition of \<open>value()\<close>.
\<close>

theorem C7_additive_mergeable:
  "(wf_tensor a1 \<and> wf_tensor b1 \<and> cat0 a1 a2 = Inr a \<and> cat0 b1 b2 = Inr b
      \<and> IoU_add (IoU_init n) a1 b1 = Inr (s1, []) \<and> IoU_add s1 a2 b2 = Inr (s2, [])
     \<longrightarrow> IoU_add (IoU_init n) a b = Inr (s2, []))
   \<and> (IoU_add_all (IoU_init n) xs = Inr sa \<and> IoU_add_all (IoU_init n) ys = Inr sb
      \<and> mset zs = mset xs + mset ys
     \<longrightarrow> (\<exists>sc. IoU_add_all (IoU_init n) zs = Inr sc
            \<and> hist sc = madd (hist sa) (hist sb)
            \<and> fst (IoU_value sc)
                = fst (IoU_value \<lparr>num_classes = n, hist = madd (hist sa) (hist sb)\<rparr>)
            \<and> IoU_metric_value ig (hist sc)
                = IoU_metric_value ig (madd (hist sa) (hist sb))))"
proof -
  have 1: "wf_tensor a1 \<and> wf_tensor b1 \<and> cat0 a1 a2 = Inr a \<and> cat0 b1 b2 = Inr b
      \<and> IoU_add (IoU_init n) a1 b1 = Inr (s1, []) \<and> IoU_add s1 a2 b2 = Inr (s2, [])
     \<longrightarrow> IoU_add (IoU_init n) a b = Inr (s2, [])"
    using IoU_add_concat by blast
  have 2: "\<exists>sc. IoU_add_all (IoU_init n) zs = Inr sc
            \<and> hist sc = madd (hist sa) (hist sb)
            \<and> fst (IoU_value sc)
                = fst (IoU_value \<lparr>num_classes = n, hist = madd (hist sa) (hist sb)\<rparr>)
            \<and> IoU_metric_value ig (hist sc)
                = IoU_metric_value ig (madd (hist sa) (hist sb))"
    if "IoU_add_all (IoU_init n) xs = Inr sa" "IoU_add_all (IoU_init n) ys = Inr sb"
      "mset zs = mset xs + mset ys"
    using IoU_merge[OF that] by simp
  show ?thesis using 1 2 by blast
qed

theorem C7_additive_mergeable_witness:
  "IoU_add (IoU_init 2) \<lparr>shape = [2, 2, 1, 2], elems = [3, 1, 2, 4, 1, 5, 2, 4]\<rparr>
       \<lparr>shape = [2, 1, 2], elems = [0, 1, 1, 1]\<rparr>
     = Inr (\<lparr>num_classes = 2, hist = [[1, 0], [1, 2]]\<rparr>, [])
   \<and> IoU_add_all (IoU_init 2)
       [(\<lparr>shape = [1, 2, 1, 2], elems = [1, 5, 2, 4]\<rparr>, \<lparr>shape = [1, 1, 2], elems = [1, 1]\<rparr>),
        (\<lparr>shape = [1, 2, 1, 2], elems = [3, 1, 2, 4]\<rparr>, \<lparr>shape = [1, 1, 2], elems = [0, 1]\<rparr>)]
     = Inr \<lparr>num_classes = 2, hist = [[1, 0], [1, 2]]\<rparr>"
proof -
  let ?a1 = "\<lparr>shape = [1, 2, 1, 2], elems = [3, 1, 2, 4]\<rparr>"
  let ?b1 = "\<lparr>shape = [1, 1, 2], elems = [0, 1]\<rparr>"
  let ?a2 = "\<lparr>shape = [1, 2, 1, 2], elems = [1, 5, 2, 4]\<rparr>"
  let ?b2 = "\<lparr>shape = [1, 1, 2], elems = [1, 1]\<rparr>"
  let ?a = "\<lparr>shape = [2, 2, 1, 2], elems = [3, 1, 2, 4, 1, 5, 2, 4]\<rparr>"
  let ?b = "\<lparr>shape = [2, 1, 2], elems = [0, 1, 1, 1]\<rparr>"
  let ?s1 = "\<lparr>num_classes = 2, hist = [[1, 0], [0, 1]]\<rparr>"
  let ?s2 = "\<lparr>num_classes = 2, hist = [[1, 0], [1, 2]]\<rparr>"
  let ?sb = "\<lparr>num_classes = 2, hist = [[0, 0], [1, 1]]\<rparr>"
  have w: "wf_tensor ?a1" "wf_tensor ?b1" by (simp_all add: wf_tensor_def)
  have c: "cat0 ?a1 ?a2 = Inr ?a" "cat0 ?b1 ?b2 = Inr ?b" by (simp_all add: cat0_def)
  have s1: "IoU_add (IoU_init 2) ?a1 ?b1 = Inr (?s1, [])" by code_simp
  have s2: "IoU_add ?s1 ?a2 ?b2 = Inr (?s2, [])" by code_simp
  have xa: "IoU_add_all (IoU_init 2) [(?a1, ?b1)] = Inr ?s1" by code_simp
  have xb: "IoU_add_all (IoU_init 2) [(?a2, ?b2)] = Inr ?sb" by code_simp
  have m: "mset [(?a2, ?b2), (?a1, ?b1)] = mset [(?a1, ?b1)] + mset [(?a2, ?b2)]" by simp
  note T = C7_additive_mergeable[of ?a1 ?b1 ?a2 ?a ?b2 ?b 2 ?s1 ?s2
      "[(?a1, ?b1)]" ?s1 "[(?a2, ?b2)]" ?sb "[(?a2, ?b2), (?a1, ?b1)]" None]
  have A: "IoU_add (IoU_init 2) ?a ?b = Inr (?s2, [])"
    using T w c s1 s2 by blast
  from T xa xb m obtain sc where
    sc: "IoU_add_all (IoU_init 2) [(?a2, ?b2), (?a1, ?b1)] = Inr sc"
      "hist sc = madd (hist ?s1) (hist ?sb)"
    by blast
  have "IoU_add_all (IoU_init 2) [(?a2, ?b2), (?a1, ?b1)] = Inr ?s2" by code_simp
  then show ?thesis using A by blast
qed

end
